theory Spec2Isabelle
  imports Main "HOL-Library.Word"
begin

unbundle bit_operations_syntax

section \<open>Testy virtual buffers: the types of tvbuff.c\<close>

text \<open>
  The C integer types of the source: \<open>guint\<close> and \<open>gint\<close> are both 32-bit words; a
  \<open>gint\<close> is read with \<open>sint\<close> wherever the source compares or tests it as a signed
  value, and a cast between the two is the identity on the bits. \<open>size_t\<close> is 64 bits wide.
\<close>

type_synonym guint8 = "8 word"
type_synonym guint = "32 word"
type_synonym gint = "32 word"
type_synonym guint16 = "16 word"
type_synonym guint64 = "64 word"
type_synonym size_t = "64 word"

text \<open>
  \<open>BoundsError\<close> and \<open>ReportedBoundsError\<close> are the two exceptions of the buffer layer
  (the spec's captured-bounds and reported-bounds). \<open>DissectorError\<close> is what a failing
  \<open>DISSECTOR_ASSERT\<close> throws. \<open>UndefinedBehaviour\<close> is not an exception of the program: it
  marks the executions on which the C code reads outside an allocation, uses a freed
  header, or throws an \<open>exception\<close> variable that was never written.
\<close>

datatype exception = BoundsError | ReportedBoundsError | DissectorError | UndefinedBehaviour

text \<open>
  The header \<open>tvbuff_t\<close>, with the fields \<open>tvb_init\<close> sets. Pointers to headers are
  addresses (\<open>nat\<close>), \<open>None\<close> is the null pointer. The union \<open>tvbuffs\<close> is written as
  its two alternatives side by side (\<open>subset_*\<close> and the composite's three fields). A
  byte pointer is the list of the bytes from the pointed-to address to the end of its
  allocation, so \<open>p + k\<close> is \<open>drop k p\<close>. The field \<open>length\<close> is named \<open>length'\<close>.
\<close>

datatype tvbuff_type = TVBUFF_REAL_DATA | TVBUFF_SUBSET | TVBUFF_COMPOSITE

record tvbuff_t =
  tvb_type :: tvbuff_type
  initialized :: bool
  usage_count :: guint
  ds_tvb :: "nat option"
  used_in :: "nat list"
  subset_tvb :: "nat option"
  subset_offset :: guint
  subset_length :: guint
  composite_tvbs :: "nat list"
  start_offsets :: "guint list option"
  end_offsets :: "guint list option"
  real_data :: "guint8 list option"
  length' :: guint
  reported_length :: guint
  raw_offset :: gint
  free_cb :: bool

section \<open>Bounds arithmetic\<close>

text \<open>
  \<open>compute_offset_length\<close> and \<open>check_offset_length_no_exception\<close> return FALSE and
  store the exception through their last argument when it is not null; here \<open>Inl e\<close> is
  that FALSE together with the exception stored, and \<open>Inr (abs_offset, abs_length)\<close>
  is TRUE with the two out-parameters. \<open>compute_length\<close> is the second half of
  \<open>compute_offset_length\<close> (the comment "Compute the length").
  \<open>Inl DissectorError\<close> of \<open>check_offset_length_no_exception\<close> is its failed assertion,
  which is thrown, not returned. What the functions have already written to the
  out-parameters when they fail is not kept: no caller reads it.
  \<open>check_offset_length\<close> throws what \<open>check_offset_length_no_exception\<close> stores, so the
  two have the same result here.
\<close>

definition compute_length :: "tvbuff_t \<Rightarrow> guint \<Rightarrow> gint \<Rightarrow> exception + guint \<times> guint" where
  "compute_length tvb abs_offset len =
     (if sint len < -1 then Inl BoundsError
      else if len = -1 then Inr (abs_offset, length' tvb - abs_offset)
      else Inr (abs_offset, len))"

definition compute_offset_length :: "tvbuff_t \<Rightarrow> gint \<Rightarrow> gint \<Rightarrow> exception + guint \<times> guint" where
  "compute_offset_length tvb offset len =
     (if 0 \<le> sint offset then
        (if offset > reported_length tvb then Inl ReportedBoundsError
         else if offset > length' tvb then Inl BoundsError
         else compute_length tvb offset len)
      else
        (if - offset > reported_length tvb then Inl ReportedBoundsError
         else if - offset > length' tvb then Inl BoundsError
         else compute_length tvb (length' tvb + offset) len))"

definition check_offset_length_no_exception ::
  "tvbuff_t \<Rightarrow> gint \<Rightarrow> gint \<Rightarrow> exception + guint \<times> guint" where
  "check_offset_length_no_exception tvb offset len =
     (if \<not> initialized tvb then Inl DissectorError
      else case compute_offset_length tvb offset len of
        Inl e \<Rightarrow> Inl e
      | Inr (abs_offset, abs_length) \<Rightarrow>
          (let end_offset = abs_offset + abs_length;
               end_offset = (if end_offset < abs_offset then - 1 else end_offset)
           in if end_offset \<le> length' tvb then Inr (abs_offset, abs_length)
              else if end_offset \<le> reported_length tvb then Inl BoundsError
              else Inl ReportedBoundsError))"

definition check_offset_length :: "tvbuff_t \<Rightarrow> gint \<Rightarrow> gint \<Rightarrow> exception + guint \<times> guint" where
  "check_offset_length tvb offset len = check_offset_length_no_exception tvb offset len"

definition tvb_ensure_bytes_exist :: "tvbuff_t \<Rightarrow> gint \<Rightarrow> gint \<Rightarrow> exception + unit" where
  "tvb_ensure_bytes_exist tvb offset len =
     (if \<not> initialized tvb then Inl DissectorError
      else if sint len < 0 then Inl ReportedBoundsError
      else case check_offset_length tvb offset len of
        Inl e \<Rightarrow> Inl e
      | Inr _ \<Rightarrow> Inr ())"


section \<open>The store of buffer headers\<close>

text \<open>
  The program state: the headers allocated from \<open>tvbuff_mem_chunk\<close>, the log of the
  headers given back with \<open>g_chunk_free\<close> (in order), the log of the headers whose
  \<open>free_cb\<close> ran, and the two static \<open>last_tvb\<close> variables of \<open>tvb_new_real_data\<close> and
  \<open>tvb_new_subset\<close>. An operation either returns a value or throws, and in both cases
  leaves a state. Recursion that follows pointers through the store takes fuel;
  \<open>None\<close> is running out of it. \<open>tvb_new\<close> hands out a fresh address each time, so a
  freed header is never mistaken for a live one: dereferencing it is
  \<open>UndefinedBehaviour\<close>.
\<close>

record tvb_state =
  heap :: "nat \<Rightarrow> tvbuff_t option"
  next_tvb :: nat
  chunk_freed :: "nat list"
  cb_called :: "nat list"
  last_tvb_real :: "nat option"
  last_tvb_subset :: "nat option"

datatype 'a outcome = Return 'a tvb_state | Throw exception tvb_state

definition bind :: "'a outcome option \<Rightarrow> ('a \<Rightarrow> tvb_state \<Rightarrow> 'b outcome option) \<Rightarrow> 'b outcome option" where
  "bind m f = (case m of
       None \<Rightarrow> None
     | Some (Throw e st) \<Rightarrow> Some (Throw e st)
     | Some (Return v st) \<Rightarrow> f v st)"

definition lift :: "tvb_state \<Rightarrow> exception + 'a \<Rightarrow> 'a outcome option" where
  "lift st r = (case r of Inl e \<Rightarrow> Some (Throw e st) | Inr v \<Rightarrow> Some (Return v st))"

definition deref :: "tvb_state \<Rightarrow> nat \<Rightarrow> tvbuff_t outcome option" where
  "deref st p = (case heap st p of
       None \<Rightarrow> Some (Throw UndefinedBehaviour st)
     | Some t \<Rightarrow> Some (Return t st))"

definition store :: "tvb_state \<Rightarrow> nat \<Rightarrow> tvbuff_t \<Rightarrow> tvb_state" where
  "store st p t = st\<lparr>heap := (heap st)(p \<mapsto> t)\<rparr>"

definition DISSECTOR_ASSERT :: "bool \<Rightarrow> tvb_state \<Rightarrow> unit outcome option" where
  "DISSECTOR_ASSERT c st = (if c then Some (Return () st) else Some (Throw DissectorError st))"

definition tvb_init :: "tvbuff_type \<Rightarrow> tvbuff_t" where
  "tvb_init ty = \<lparr>tvb_type = ty, initialized = False, usage_count = 1, ds_tvb = None,
     used_in = [], subset_tvb = None, subset_offset = 0, subset_length = 0,
     composite_tvbs = [], start_offsets = None, end_offsets = None, real_data = None,
     length' = 0, reported_length = 0, raw_offset = - 1, free_cb = False\<rparr>"

definition tvb_new :: "tvb_state \<Rightarrow> tvbuff_type \<Rightarrow> nat \<times> tvb_state" where
  "tvb_new st ty =
     (let p = next_tvb st
      in (p, st\<lparr>heap := (heap st)(p \<mapsto> tvb_init ty), next_tvb := Suc p\<rparr>))"

definition g_chunk_free :: "tvb_state \<Rightarrow> nat \<Rightarrow> tvb_state" where
  "g_chunk_free st p = st\<lparr>heap := (heap st)(p := None), chunk_freed := chunk_freed st @ [p]\<rparr>"

section \<open>Lifecycle\<close>

text \<open>
  \<open>free_members\<close> is the loop of \<open>tvb_free\<close> over the members of a composite, and
  \<open>free_chain_loop\<close> the loop of \<open>tvb_free_chain\<close> over \<open>tvb->used_in\<close>: after each
  recursive call it reads \<open>slist->next\<close>, a node of the list of \<open>tvb\<close>, which is gone
  when \<open>tvb\<close> itself was freed in between.
\<close>

fun tvb_free :: "nat \<Rightarrow> tvb_state \<Rightarrow> nat \<Rightarrow> unit outcome option"
  and tvb_decrement_usage_count :: "nat \<Rightarrow> tvb_state \<Rightarrow> nat \<Rightarrow> guint \<Rightarrow> guint outcome option"
  and free_members :: "nat \<Rightarrow> tvb_state \<Rightarrow> nat list \<Rightarrow> unit outcome option"
where
  "tvb_free 0 st p = None"
| "tvb_free (Suc n) st p =
     bind (deref st p) (\<lambda>t st.
       let t = t\<lparr>usage_count := usage_count t - 1\<rparr>; st = store st p t
       in if usage_count t = 0 then
            bind (case tvb_type t of
                TVBUFF_REAL_DATA \<Rightarrow>
                  Some (Return () (if free_cb t then st\<lparr>cb_called := cb_called st @ [p]\<rparr> else st))
              | TVBUFF_SUBSET \<Rightarrow>
                  (case subset_tvb t of
                     None \<Rightarrow> Some (Return () st)
                   | Some b \<Rightarrow> bind (tvb_decrement_usage_count n st b 1) (\<lambda>_ st. Some (Return () st)))
              | TVBUFF_COMPOSITE \<Rightarrow> free_members n st (composite_tvbs t))
              (\<lambda>_ st. bind (deref st p) (\<lambda>_ st. Some (Return () (g_chunk_free st p))))
          else Some (Return () st))"
| "tvb_decrement_usage_count 0 st p count = None"
| "tvb_decrement_usage_count (Suc n) st p count =
     bind (deref st p) (\<lambda>t st.
       if usage_count t \<le> count then
         bind (tvb_free n (store st p (t\<lparr>usage_count := 1\<rparr>)) p) (\<lambda>_ st. Some (Return 0 st))
       else
         Some (Return (usage_count t - count) (store st p (t\<lparr>usage_count := usage_count t - count\<rparr>))))"
| "free_members 0 st ms = None"
| "free_members (Suc n) st [] = Some (Return () st)"
| "free_members (Suc n) st (m # ms) =
     bind (tvb_decrement_usage_count n st m 1) (\<lambda>_ st. free_members n st ms)"

definition tvb_increment_usage_count :: "tvb_state \<Rightarrow> nat \<Rightarrow> guint \<Rightarrow> guint outcome option" where
  "tvb_increment_usage_count st p count =
     bind (deref st p) (\<lambda>t st.
       Some (Return (usage_count t + count) (store st p (t\<lparr>usage_count := usage_count t + count\<rparr>))))"

fun tvb_free_chain :: "nat \<Rightarrow> tvb_state \<Rightarrow> nat \<Rightarrow> unit outcome option"
  and free_chain_loop :: "nat \<Rightarrow> tvb_state \<Rightarrow> nat \<Rightarrow> nat list \<Rightarrow> unit outcome option"
where
  "tvb_free_chain 0 st p = None"
| "tvb_free_chain (Suc n) st p =
     bind (deref st p) (\<lambda>t st.
       bind (free_chain_loop n st p (used_in t)) (\<lambda>_ st. tvb_free n st p))"
| "free_chain_loop 0 st p us = None"
| "free_chain_loop (Suc n) st p [] = Some (Return () st)"
| "free_chain_loop (Suc n) st p (u # us) =
     bind (tvb_free_chain n st u) (\<lambda>_ st.
       bind (deref st p) (\<lambda>_ st. free_chain_loop n st p us))"

definition add_to_used_in_list :: "tvb_state \<Rightarrow> nat \<Rightarrow> nat \<Rightarrow> unit outcome option" where
  "add_to_used_in_list st p u =
     bind (deref st p) (\<lambda>t st.
       bind (tvb_increment_usage_count (store st p (t\<lparr>used_in := u # used_in t\<rparr>)) p 1)
         (\<lambda>_ st. Some (Return () st)))"


section \<open>Constructors\<close>

text \<open>
  The data pointer given to \<open>tvb_set_real_data\<close> may be null (\<open>None\<close>). In
  \<open>tvb_set_subset\<close> the cached pointer of the subset is \<open>backing->real_data + offset\<close>.
\<close>

definition tvb_set_real_data ::
  "tvb_state \<Rightarrow> nat \<Rightarrow> guint8 list option \<Rightarrow> guint \<Rightarrow> gint \<Rightarrow> unit outcome option" where
  "tvb_set_real_data st p data len reported_len =
     bind (deref st p) (\<lambda>t st.
     bind (DISSECTOR_ASSERT (tvb_type t = TVBUFF_REAL_DATA) st) (\<lambda>_ st.
     bind (DISSECTOR_ASSERT (\<not> initialized t) st) (\<lambda>_ st.
       if sint reported_len < - 1 then Some (Throw ReportedBoundsError st)
       else Some (Return () (store st p
         (t\<lparr>real_data := data, length' := len, reported_length := reported_len,
            initialized := True\<rparr>))))))"

definition tvb_new_real_data ::
  "nat \<Rightarrow> tvb_state \<Rightarrow> guint8 list option \<Rightarrow> guint \<Rightarrow> gint \<Rightarrow> nat outcome option" where
  "tvb_new_real_data n st data len reported_len =
     (let (p, st) = tvb_new st TVBUFF_REAL_DATA
      in bind (case last_tvb_real st of
                 None \<Rightarrow> Some (Return () st)
               | Some l \<Rightarrow> tvb_free n st l) (\<lambda>_ st.
         bind (tvb_set_real_data (st\<lparr>last_tvb_real := Some p\<rparr>) p data len reported_len) (\<lambda>_ st.
         bind (deref st p) (\<lambda>t st.
           Some (Return p ((store st p (t\<lparr>ds_tvb := Some p\<rparr>))\<lparr>last_tvb_real := None\<rparr>))))))"

definition tvb_set_subset ::
  "tvb_state \<Rightarrow> nat \<Rightarrow> nat \<Rightarrow> gint \<Rightarrow> gint \<Rightarrow> gint \<Rightarrow> unit outcome option" where
  "tvb_set_subset st p backing backing_offset backing_length reported_len =
     bind (deref st p) (\<lambda>t st.
     bind (DISSECTOR_ASSERT (tvb_type t = TVBUFF_SUBSET) st) (\<lambda>_ st.
     bind (DISSECTOR_ASSERT (\<not> initialized t) st) (\<lambda>_ st.
       if sint reported_len < - 1 then Some (Throw ReportedBoundsError st)
       else
         bind (deref st backing) (\<lambda>b st.
         bind (lift st (check_offset_length b backing_offset backing_length)) (\<lambda>(off, len) st.
           let t = t\<lparr>subset_offset := off, subset_length := len, subset_tvb := Some backing,
                      length' := len,
                      reported_length :=
                        (if reported_len = - 1 then reported_length b - off else reported_len),
                      initialized := True\<rparr>
           in bind (add_to_used_in_list (store st p t) backing p) (\<lambda>_ st.
              bind (deref st backing) (\<lambda>b st.
                case real_data b of
                  None \<Rightarrow> Some (Return () st)
                | Some d \<Rightarrow>
                    Some (Return () (store st p (t\<lparr>real_data := Some (drop (unat off) d)\<rparr>))))))))))"

definition tvb_new_subset ::
  "nat \<Rightarrow> tvb_state \<Rightarrow> nat \<Rightarrow> gint \<Rightarrow> gint \<Rightarrow> gint \<Rightarrow> nat outcome option" where
  "tvb_new_subset n st backing backing_offset backing_length reported_len =
     (let (p, st) = tvb_new st TVBUFF_SUBSET
      in bind (case last_tvb_subset st of
                 None \<Rightarrow> Some (Return () st)
               | Some l \<Rightarrow> tvb_free n st l) (\<lambda>_ st.
         bind (tvb_set_subset (st\<lparr>last_tvb_subset := Some p\<rparr>) p backing backing_offset
                 backing_length reported_len) (\<lambda>_ st.
         bind (deref st backing) (\<lambda>b st.
         bind (deref st p) (\<lambda>t st.
           Some (Return p ((store st p (t\<lparr>ds_tvb := ds_tvb b\<rparr>))\<lparr>last_tvb_subset := None\<rparr>)))))))"

definition tvb_composite_append :: "tvb_state \<Rightarrow> nat \<Rightarrow> nat \<Rightarrow> unit outcome option" where
  "tvb_composite_append st p member =
     bind (deref st p) (\<lambda>t st.
     bind (DISSECTOR_ASSERT (\<not> initialized t) st) (\<lambda>_ st.
     bind (DISSECTOR_ASSERT (tvb_type t = TVBUFF_COMPOSITE) st) (\<lambda>_ st.
       add_to_used_in_list (store st p (t\<lparr>composite_tvbs := composite_tvbs t @ [member]\<rparr>))
         p member)))"

definition tvb_composite_prepend :: "tvb_state \<Rightarrow> nat \<Rightarrow> nat \<Rightarrow> unit outcome option" where
  "tvb_composite_prepend st p member =
     bind (deref st p) (\<lambda>t st.
     bind (DISSECTOR_ASSERT (\<not> initialized t) st) (\<lambda>_ st.
     bind (DISSECTOR_ASSERT (tvb_type t = TVBUFF_COMPOSITE) st) (\<lambda>_ st.
       add_to_used_in_list (store st p (t\<lparr>composite_tvbs := member # composite_tvbs t\<rparr>))
         p member)))"

definition tvb_new_composite :: "tvb_state \<Rightarrow> nat outcome option" where
  "tvb_new_composite st = (let (p, st) = tvb_new st TVBUFF_COMPOSITE in Some (Return p st))"

text \<open>
  The loop of \<open>tvb_composite_finalize\<close>: \<open>len\<close> is \<open>tvb->length\<close>, the two lists are the
  entries of \<open>start_offsets\<close> and \<open>end_offsets\<close> written so far.
\<close>

fun finalize_loop ::
  "tvb_state \<Rightarrow> nat list \<Rightarrow> guint \<Rightarrow> guint list \<Rightarrow> guint list \<Rightarrow>
     exception + guint \<times> guint list \<times> guint list" where
  "finalize_loop st [] len starts ends = Inr (len, starts, ends)"
| "finalize_loop st (m # ms) len starts ends =
     (case heap st m of
        None \<Rightarrow> Inl UndefinedBehaviour
      | Some member_tvb \<Rightarrow>
          finalize_loop st ms (len + length' member_tvb) (starts @ [len])
            (ends @ [len + length' member_tvb - 1]))"

definition tvb_composite_finalize :: "tvb_state \<Rightarrow> nat \<Rightarrow> unit outcome option" where
  "tvb_composite_finalize st p =
     bind (deref st p) (\<lambda>t st.
     bind (DISSECTOR_ASSERT (\<not> initialized t) st) (\<lambda>_ st.
     bind (DISSECTOR_ASSERT (tvb_type t = TVBUFF_COMPOSITE) st) (\<lambda>_ st.
     bind (DISSECTOR_ASSERT (length' t = 0) st) (\<lambda>_ st.
     bind (lift st (finalize_loop st (composite_tvbs t) (length' t) [] [])) (\<lambda>(len, starts, ends) st.
       Some (Return () (store st p
         (t\<lparr>start_offsets := Some starts, end_offsets := Some ends, length' := len,
            initialized := True\<rparr>))))))))"

definition empty_state :: tvb_state where
  "empty_state = \<lparr>heap = (\<lambda>_. None), next_tvb = 0, chunk_freed = [], cb_called = [],
     last_tvb_real = None, last_tvb_subset = None\<rparr>"


section \<open>The contiguity resolver\<close>

text \<open>
  \<open>find_member\<close> is the search loop shared by \<open>composite_ensure_contiguous_no_exception\<close>
  and \<open>composite_memcpy\<close>: the first \<open>i < num_members\<close> with
  \<open>abs_offset <= end_offsets[i]\<close>, and the member at that position.
  \<open>ensure_contiguous_no_exception\<close> returns a pointer, or null: \<open>Inl (Some e)\<close> is null
  with \<open>e\<close> stored through \<open>exception\<close>, \<open>Inl None\<close> is null with nothing stored (the
  nested calls pass a null \<open>exception\<close>). \<open>tvb_memcpy\<close> and \<open>composite_memcpy\<close> return
  the bytes they write to \<open>target\<close>; \<open>tvb_memdup\<close> returns the new allocation, null
  when \<open>g_malloc\<close> is asked for no bytes.
\<close>

fun find_member ::
  "nat list \<Rightarrow> guint list \<Rightarrow> guint \<Rightarrow> nat \<Rightarrow> exception + (nat \<times> nat) option" where
  "find_member [] ends abs_offset i = Inr None"
| "find_member (m # ms) [] abs_offset i = Inl UndefinedBehaviour"
| "find_member (m # ms) (e # es) abs_offset i =
     (if abs_offset \<le> e then Inr (Some (i, m)) else find_member ms es abs_offset (Suc i))"

definition array_get :: "guint list option \<Rightarrow> nat \<Rightarrow> exception + guint" where
  "array_get a i = (case a of
       None \<Rightarrow> Inl UndefinedBehaviour
     | Some xs \<Rightarrow> if i < length xs then Inr (xs ! i) else Inl UndefinedBehaviour)"

definition memcpy :: "guint8 list \<Rightarrow> guint \<Rightarrow> guint \<Rightarrow> exception + guint8 list" where
  "memcpy d off n =
     (if unat off + unat n \<le> length d then Inr (take (unat n) (drop (unat off) d))
      else Inl UndefinedBehaviour)"

definition unset :: "exception option + 'a \<Rightarrow> exception option + 'a" where
  "unset r = (case r of Inl _ \<Rightarrow> Inl None | Inr q \<Rightarrow> Inr q)"


function (sequential) ensure_contiguous_no_exception ::
    "nat \<Rightarrow> tvb_state \<Rightarrow> nat \<Rightarrow> gint \<Rightarrow> gint \<Rightarrow> (exception option + guint8 list) outcome option"
  and composite_ensure_contiguous_no_exception ::
    "nat \<Rightarrow> tvb_state \<Rightarrow> nat \<Rightarrow> guint \<Rightarrow> guint \<Rightarrow> (exception option + guint8 list) outcome option"
  and tvb_memdup ::
    "nat \<Rightarrow> tvb_state \<Rightarrow> nat \<Rightarrow> gint \<Rightarrow> size_t \<Rightarrow> guint8 list option outcome option"
  and tvb_memcpy ::
    "nat \<Rightarrow> tvb_state \<Rightarrow> nat \<Rightarrow> gint \<Rightarrow> size_t \<Rightarrow> guint8 list outcome option"
  and composite_memcpy ::
    "nat \<Rightarrow> tvb_state \<Rightarrow> nat \<Rightarrow> guint \<Rightarrow> size_t \<Rightarrow> guint8 list outcome option"
where
  "ensure_contiguous_no_exception 0 st p offset len = None"
| "ensure_contiguous_no_exception (Suc n) st p offset len =
     bind (deref st p) (\<lambda>t st.
       case check_offset_length_no_exception t offset len of
         Inl e \<Rightarrow>
           if e = DissectorError then Some (Throw e st) else Some (Return (Inl (Some e)) st)
       | Inr (abs_offset, abs_length) \<Rightarrow>
           (case real_data t of
              Some d \<Rightarrow> Some (Return (Inr (drop (unat abs_offset) d)) st)
            | None \<Rightarrow>
                (case tvb_type t of
                   TVBUFF_REAL_DATA \<Rightarrow> Some (Throw DissectorError st)
                 | TVBUFF_SUBSET \<Rightarrow>
                     (case subset_tvb t of
                        None \<Rightarrow> Some (Throw UndefinedBehaviour st)
                      | Some b \<Rightarrow>
                          bind (ensure_contiguous_no_exception n st b
                                  (abs_offset - subset_offset t) abs_length)
                            (\<lambda>r st. Some (Return (unset r) st)))
                 | TVBUFF_COMPOSITE \<Rightarrow>
                     composite_ensure_contiguous_no_exception n st p abs_offset abs_length)))"
| "composite_ensure_contiguous_no_exception 0 st p abs_offset abs_length = None"
| "composite_ensure_contiguous_no_exception (Suc n) st p abs_offset abs_length =
     bind (deref st p) (\<lambda>t st.
     bind (DISSECTOR_ASSERT (tvb_type t = TVBUFF_COMPOSITE) st) (\<lambda>_ st.
     bind (lift st (find_member (composite_tvbs t) (case end_offsets t of None \<Rightarrow> [] | Some es \<Rightarrow> es)
             abs_offset 0)) (\<lambda>found st.
       case found of
         None \<Rightarrow> Some (Throw DissectorError st)
       | Some (i, m) \<Rightarrow>
           bind (lift st (array_get (start_offsets t) i)) (\<lambda>start st.
           bind (deref st m) (\<lambda>member_tvb st.
             case check_offset_length_no_exception member_tvb (abs_offset - start) abs_length of
               Inr (member_offset, member_length) \<Rightarrow>
                 bind (DISSECTOR_ASSERT (real_data t = None) st) (\<lambda>_ st.
                 bind (ensure_contiguous_no_exception n st m member_offset member_length)
                   (\<lambda>r st. Some (Return (unset r) st)))
             | Inl e \<Rightarrow>
                 if e = DissectorError then Some (Throw e st)
                 else
                   bind (tvb_memdup n st p 0 (- 1)) (\<lambda>duped st.
                   bind (deref st p) (\<lambda>t st.
                     let st = store st p (t\<lparr>real_data := duped\<rparr>)
                     in case duped of
                          Some d \<Rightarrow> Some (Return (Inr (drop (unat abs_offset) d)) st)
                        | None \<Rightarrow>
                            if abs_offset = 0 then Some (Return (Inl None) st)
                            else Some (Throw UndefinedBehaviour st))))))))"
| "tvb_memdup 0 st p offset len = None"
| "tvb_memdup (Suc n) st p offset len =
     bind (deref st p) (\<lambda>t st.
     bind (lift st (check_offset_length t offset (ucast len))) (\<lambda>(abs_offset, abs_length) st.
     bind (tvb_memcpy n st p abs_offset (ucast abs_length)) (\<lambda>bytes st.
       Some (Return (if abs_length = 0 then None else Some bytes) st))))"
| "tvb_memcpy 0 st p offset len = None"
| "tvb_memcpy (Suc n) st p offset len =
     bind (DISSECTOR_ASSERT (len \<le> 0x7FFFFFFF) st) (\<lambda>_ st.
     bind (deref st p) (\<lambda>t st.
     bind (lift st (check_offset_length t offset (ucast len))) (\<lambda>(abs_offset, abs_length) st.
       case real_data t of
         Some d \<Rightarrow> lift st (memcpy d abs_offset abs_length)
       | None \<Rightarrow>
           (case tvb_type t of
              TVBUFF_REAL_DATA \<Rightarrow> Some (Throw DissectorError st)
            | TVBUFF_SUBSET \<Rightarrow>
                (case subset_tvb t of
                   None \<Rightarrow> Some (Throw UndefinedBehaviour st)
                 | Some b \<Rightarrow> tvb_memcpy n st b (abs_offset - subset_offset t) (ucast abs_length))
            | TVBUFF_COMPOSITE \<Rightarrow> composite_memcpy n st p offset len))))"
| "composite_memcpy 0 st p abs_offset abs_length = None"
| "composite_memcpy (Suc n) st p abs_offset abs_length =
     bind (deref st p) (\<lambda>t st.
     bind (DISSECTOR_ASSERT (tvb_type t = TVBUFF_COMPOSITE) st) (\<lambda>_ st.
     bind (lift st (find_member (composite_tvbs t) (case end_offsets t of None \<Rightarrow> [] | Some es \<Rightarrow> es)
             abs_offset 0)) (\<lambda>found st.
       case found of
         None \<Rightarrow> Some (Throw DissectorError st)
       | Some (i, m) \<Rightarrow>
           bind (lift st (array_get (start_offsets t) i)) (\<lambda>start st.
           bind (deref st m) (\<lambda>member_tvb st.
             case check_offset_length_no_exception member_tvb (abs_offset - start)
                    (ucast abs_length) of
               Inr (member_offset, member_length) \<Rightarrow>
                 bind (DISSECTOR_ASSERT (real_data t = None) st) (\<lambda>_ st.
                   tvb_memcpy n st m member_offset (ucast member_length))
             | Inl e \<Rightarrow>
                 if e = DissectorError then Some (Throw e st)
                 else
                   (case compute_offset_length member_tvb (abs_offset - start) (- 1) of
                      Inl _ \<Rightarrow> Some (Throw DissectorError st)
                    | Inr (member_offset, member_length) \<Rightarrow>
                        bind (tvb_memcpy n st m member_offset (ucast member_length)) (\<lambda>bytes st.
                          let abs_offset = abs_offset + member_length;
                              abs_length = abs_length - ucast member_length
                          in if abs_length > 0 then
                               bind (composite_memcpy n st p abs_offset abs_length)
                                 (\<lambda>more st. Some (Return (bytes @ more) st))
                             else Some (Return bytes st))))))))"
  by pat_completeness auto
termination
  by (relation "measure (case_sum (case_sum fst fst) (case_sum fst (case_sum fst fst)))") auto

definition ensure_contiguous ::
  "nat \<Rightarrow> tvb_state \<Rightarrow> nat \<Rightarrow> gint \<Rightarrow> gint \<Rightarrow> guint8 list outcome option" where
  "ensure_contiguous n st p offset len =
     bind (ensure_contiguous_no_exception n st p offset len) (\<lambda>r st.
       case r of
         Inr ptr \<Rightarrow> Some (Return ptr st)
       | Inl (Some e) \<Rightarrow> Some (Throw e st)
       | Inl None \<Rightarrow> Some (Throw UndefinedBehaviour st))"

definition fast_ensure_contiguous ::
  "nat \<Rightarrow> tvb_state \<Rightarrow> nat \<Rightarrow> gint \<Rightarrow> guint \<Rightarrow> guint8 list outcome option" where
  "fast_ensure_contiguous n st p offset len =
     bind (deref st p) (\<lambda>t st.
     bind (DISSECTOR_ASSERT (initialized t) st) (\<lambda>_ st.
       case real_data t of
         None \<Rightarrow> ensure_contiguous n st p offset len
       | Some d \<Rightarrow>
           if sint offset < 0 then ensure_contiguous n st p offset len
           else
             let u_offset = offset; end_offset = u_offset + len
             in if end_offset \<le> length' t then Some (Return (drop (unat u_offset) d) st)
                else if end_offset > reported_length t then Some (Throw ReportedBoundsError st)
                else Some (Throw BoundsError st)))"

definition tvb_get_ptr ::
  "nat \<Rightarrow> tvb_state \<Rightarrow> nat \<Rightarrow> gint \<Rightarrow> gint \<Rightarrow> guint8 list outcome option" where
  "tvb_get_ptr n st p offset len = ensure_contiguous n st p offset len"

section \<open>Typed accessors\<close>

text \<open>
  Modelled from the spec: the macros \<open>pntohs\<close>, \<open>pntohl\<close> and \<open>pntoh64\<close> of pint.h are not
  part of the sources; the spec has them read 2, 4 and 8 octets in network (big-endian)
  order. \<open>octets ptr k\<close> are the \<open>k\<close> bytes the macro dereferences.
\<close>

definition octets :: "guint8 list \<Rightarrow> nat \<Rightarrow> exception + guint8 list" where
  "octets ptr k = (if k \<le> length ptr then Inr (take k ptr) else Inl UndefinedBehaviour)"

definition pntoh :: "guint8 list \<Rightarrow> 'a::len word" where
  "pntoh bs = foldl (\<lambda>acc b. push_bit 8 acc OR ucast b) 0 bs"

definition tvb_get_guint8 :: "nat \<Rightarrow> tvb_state \<Rightarrow> nat \<Rightarrow> gint \<Rightarrow> guint8 outcome option" where
  "tvb_get_guint8 n st p offset =
     bind (fast_ensure_contiguous n st p offset 1) (\<lambda>ptr st.
     bind (lift st (octets ptr 1)) (\<lambda>bs st. Some (Return (hd bs) st)))"

definition tvb_get_ntohs :: "nat \<Rightarrow> tvb_state \<Rightarrow> nat \<Rightarrow> gint \<Rightarrow> guint16 outcome option" where
  "tvb_get_ntohs n st p offset =
     bind (fast_ensure_contiguous n st p offset 2) (\<lambda>ptr st.
     bind (lift st (octets ptr 2)) (\<lambda>bs st. Some (Return (pntoh bs) st)))"

definition tvb_get_ntohl :: "nat \<Rightarrow> tvb_state \<Rightarrow> nat \<Rightarrow> gint \<Rightarrow> guint outcome option" where
  "tvb_get_ntohl n st p offset =
     bind (fast_ensure_contiguous n st p offset 4) (\<lambda>ptr st.
     bind (lift st (octets ptr 4)) (\<lambda>bs st. Some (Return (pntoh bs) st)))"

definition tvb_get_ntoh64 :: "nat \<Rightarrow> tvb_state \<Rightarrow> nat \<Rightarrow> gint \<Rightarrow> guint64 outcome option" where
  "tvb_get_ntoh64 n st p offset =
     bind (fast_ensure_contiguous n st p offset 8) (\<lambda>ptr st.
     bind (lift st (octets ptr 8)) (\<lambda>bs st. Some (Return (pntoh bs) st)))"

definition bit_mask8 :: "guint8 list" where
  "bit_mask8 = [0xff, 0x7f, 0x3f, 0x1f, 0x0f, 0x07, 0x03, 0x01]"

definition bit_mask16 :: "guint16 list" where
  "bit_mask16 = [0xffff, 0x7fff, 0x3fff, 0x1fff, 0x0fff, 0x07ff, 0x03ff, 0x01ff]"

definition bit_mask32 :: "guint list" where
  "bit_mask32 = [0xffffffff, 0x7fffffff, 0x3fffffff, 0x1fffffff, 0x0fffffff, 0x07ffffff,
     0x03ffffff, 0x01ffffff]"

definition bit_mask64 :: "guint64 list" where
  "bit_mask64 = [0xffffffffffffffff, 0x7fffffffffffffff, 0x3fffffffffffffff,
     0x1fffffffffffffff, 0x0fffffffffffffff, 0x07ffffffffffffff, 0x03ffffffffffffff,
     0x01ffffffffffffff]"

definition tvb_get_bits8 ::
  "nat \<Rightarrow> tvb_state \<Rightarrow> nat \<Rightarrow> gint \<Rightarrow> gint \<Rightarrow> guint8 outcome option" where
  "tvb_get_bits8 n st p bit_offset no_of_bits =
     (if sint no_of_bits > 8 then Some (Throw DissectorError st)
      else
        let offset = signed_drop_bit 3 bit_offset;
            bit_offset = bit_offset AND 0x7;
            tot_no_bits = (ucast (bit_offset + no_of_bits) :: guint8)
        in if tot_no_bits \<le> 8 then
             bind (tvb_get_guint8 n st p offset) (\<lambda>v st.
               let val = (ucast (v AND bit_mask8 ! unat bit_offset) :: guint16);
                   val = drop_bit (8 - unat tot_no_bits) val
               in Some (Return (ucast val) st))
           else
             bind (tvb_get_ntohs n st p offset) (\<lambda>v st.
               let val = v AND bit_mask16 ! unat bit_offset
               in if 16 < tot_no_bits then Some (Throw UndefinedBehaviour st)
                  else Some (Return (ucast (drop_bit (16 - unat tot_no_bits) val)) st)))"

definition tvb_get_bits16 ::
  "nat \<Rightarrow> tvb_state \<Rightarrow> nat \<Rightarrow> gint \<Rightarrow> gint \<Rightarrow> bool \<Rightarrow> guint16 outcome option" where
  "tvb_get_bits16 n st p bit_offset no_of_bits little_endian =
     (if sint no_of_bits < 8 \<or> sint no_of_bits > 16 then Some (Throw DissectorError st)
      else if little_endian then Some (Throw DissectorError st)
      else
        let offset = signed_drop_bit 3 bit_offset;
            bit_offset = bit_offset AND 0x7;
            tot_no_bits = (ucast (bit_offset + no_of_bits) :: guint8)
        in bind (tvb_get_ntohs n st p offset) (\<lambda>v st.
             let val = v AND bit_mask16 ! unat bit_offset
             in if tot_no_bits < 16 then
                  Some (Return (drop_bit (16 - unat tot_no_bits) val) st)
                else if tot_no_bits > 16 then
                  bind (tvb_get_guint8 n st p (offset + 2)) (\<lambda>b st.
                    let val = push_bit (unat tot_no_bits - 16) val;
                        tempval = drop_bit (24 - unat tot_no_bits) (ucast b :: guint16)
                    in Some (Return (val OR tempval) st))
                else Some (Return val st)))"

definition tvb_get_bits32 ::
  "nat \<Rightarrow> tvb_state \<Rightarrow> nat \<Rightarrow> gint \<Rightarrow> gint \<Rightarrow> bool \<Rightarrow> guint outcome option" where
  "tvb_get_bits32 n st p bit_offset no_of_bits little_endian =
     (if sint no_of_bits < 17 \<or> sint no_of_bits > 32 then Some (Throw DissectorError st)
      else if little_endian then Some (Throw DissectorError st)
      else
        let offset = signed_drop_bit 3 bit_offset;
            bit_offset = bit_offset AND 0x7;
            tot_no_bits = (ucast (bit_offset + no_of_bits) :: guint8)
        in bind (tvb_get_ntohl n st p offset) (\<lambda>v st.
             let val = v AND bit_mask32 ! unat bit_offset
             in if tot_no_bits < 32 then
                  Some (Return (drop_bit (32 - unat tot_no_bits) val) st)
                else if tot_no_bits > 32 then
                  bind (tvb_get_guint8 n st p (offset + 4)) (\<lambda>b st.
                    let val = push_bit (unat tot_no_bits - 32) val;
                        tempval = drop_bit (40 - unat tot_no_bits) (ucast b :: guint)
                    in Some (Return (val OR tempval) st))
                else Some (Return val st)))"

definition tvb_get_bits64 ::
  "nat \<Rightarrow> tvb_state \<Rightarrow> nat \<Rightarrow> gint \<Rightarrow> gint \<Rightarrow> bool \<Rightarrow> guint64 outcome option" where
  "tvb_get_bits64 n st p bit_offset no_of_bits little_endian =
     (if sint no_of_bits < 32 \<or> sint no_of_bits > 64 then Some (Throw DissectorError st)
      else if little_endian then Some (Throw DissectorError st)
      else
        let offset = signed_drop_bit 3 bit_offset;
            bit_offset = bit_offset AND 0x7;
            tot_no_bits = (ucast (bit_offset + no_of_bits) :: guint8)
        in bind (tvb_get_ntoh64 n st p offset) (\<lambda>v st.
             let val = v AND bit_mask64 ! unat bit_offset
             in if tot_no_bits < 64 then
                  Some (Return (drop_bit (64 - unat tot_no_bits) val) st)
                else if tot_no_bits > 64 then
                  bind (tvb_get_guint8 n st p (offset + 8)) (\<lambda>b st.
                    let val = push_bit (unat tot_no_bits - 64) val;
                        tempval = drop_bit (72 - unat tot_no_bits) (ucast b :: guint64)
                    in Some (Return (val OR tempval) st))
                else Some (Return val st)))"


section \<open>Searching\<close>

text \<open>
  \<open>guint8_find\<close> and \<open>guint8_pbrk\<close> return the index of the match from \<open>haystack\<close>
  (the source returns the pointer), or \<open>None\<close> for null. \<open>needles\<close> is a C string: its
  needles are the bytes before its first zero byte. The loop counter \<open>i\<close> is a natural
  number here. \<open>search_limit\<close> is the computation of \<open>limit\<close> that \<open>tvb_find_guint8\<close> and
  \<open>tvb_pbrk_guint8\<close> share.
\<close>

definition tvb_length :: "tvbuff_t \<Rightarrow> exception + guint" where
  "tvb_length tvb = (if initialized tvb then Inr (length' tvb) else Inl DissectorError)"

definition tvb_reported_length :: "tvbuff_t \<Rightarrow> exception + guint" where
  "tvb_reported_length tvb =
     (if initialized tvb then Inr (reported_length tvb) else Inl DissectorError)"

definition tvb_length_remaining :: "tvbuff_t \<Rightarrow> gint \<Rightarrow> exception + gint" where
  "tvb_length_remaining tvb offset =
     (if \<not> initialized tvb then Inl DissectorError
      else case compute_offset_length tvb offset (- 1) of
        Inr (abs_offset, abs_length) \<Rightarrow> Inr abs_length
      | Inl _ \<Rightarrow> Inr (- 1))"

fun guint8_find_loop :: "guint8 list \<Rightarrow> nat \<Rightarrow> guint8 \<Rightarrow> nat \<Rightarrow> exception + nat option" where
  "guint8_find_loop b 0 needle i = Inr None"
| "guint8_find_loop [] (Suc r) needle i = Inl UndefinedBehaviour"
| "guint8_find_loop (x # b) (Suc r) needle i =
     (if x = needle then Inr (Some i) else guint8_find_loop b r needle (Suc i))"

definition guint8_find :: "guint8 list \<Rightarrow> nat \<Rightarrow> guint8 \<Rightarrow> exception + nat option" where
  "guint8_find haystack haystacklen needle = guint8_find_loop haystack haystacklen needle 0"

fun guint8_pbrk_loop ::
  "guint8 list \<Rightarrow> nat \<Rightarrow> guint8 list \<Rightarrow> nat \<Rightarrow> exception + nat option" where
  "guint8_pbrk_loop b 0 needles i = Inr None"
| "guint8_pbrk_loop [] (Suc r) needles i = Inl UndefinedBehaviour"
| "guint8_pbrk_loop (item # b) (Suc r) needles i =
     (if item \<in> set (takeWhile (\<lambda>needle. needle \<noteq> 0) needles) then Inr (Some i)
      else guint8_pbrk_loop b r needles (Suc i))"

definition guint8_pbrk :: "guint8 list \<Rightarrow> nat \<Rightarrow> guint8 list \<Rightarrow> exception + nat option" where
  "guint8_pbrk haystack haystacklen needles = guint8_pbrk_loop haystack haystacklen needles 0"

definition search_limit :: "guint \<Rightarrow> gint \<Rightarrow> guint" where
  "search_limit tvbufflen maxlength =
     (if maxlength = - 1 then tvbufflen
      else if tvbufflen < maxlength then tvbufflen
      else maxlength)"

fun tvb_find_guint8 ::
  "nat \<Rightarrow> tvb_state \<Rightarrow> nat \<Rightarrow> gint \<Rightarrow> gint \<Rightarrow> guint8 \<Rightarrow> gint outcome option" where
  "tvb_find_guint8 0 st p offset maxlength needle = None"
| "tvb_find_guint8 (Suc n) st p offset maxlength needle =
     bind (deref st p) (\<lambda>t st.
     bind (lift st (check_offset_length t offset 0)) (\<lambda>(abs_offset, junk_length) st.
     bind (lift st (tvb_length_remaining t abs_offset)) (\<lambda>tvbufflen st.
       let limit = search_limit tvbufflen maxlength
       in case real_data t of
            Some d \<Rightarrow>
              bind (lift st (guint8_find (drop (unat abs_offset) d) (unat limit) needle))
                (\<lambda>result st. case result of
                     None \<Rightarrow> Some (Return (- 1) st)
                   | Some j \<Rightarrow> Some (Return (word_of_nat (unat abs_offset + j)) st))
          | None \<Rightarrow>
              (case tvb_type t of
                 TVBUFF_REAL_DATA \<Rightarrow> Some (Throw DissectorError st)
               | TVBUFF_SUBSET \<Rightarrow>
                   (case subset_tvb t of
                      None \<Rightarrow> Some (Throw UndefinedBehaviour st)
                    | Some b \<Rightarrow>
                        tvb_find_guint8 n st b (abs_offset - subset_offset t) limit needle)
               | TVBUFF_COMPOSITE \<Rightarrow> Some (Throw DissectorError st)))))"

fun tvb_pbrk_guint8 ::
  "nat \<Rightarrow> tvb_state \<Rightarrow> nat \<Rightarrow> gint \<Rightarrow> gint \<Rightarrow> guint8 list \<Rightarrow> gint outcome option" where
  "tvb_pbrk_guint8 0 st p offset maxlength needles = None"
| "tvb_pbrk_guint8 (Suc n) st p offset maxlength needles =
     bind (deref st p) (\<lambda>t st.
     bind (lift st (check_offset_length t offset 0)) (\<lambda>(abs_offset, junk_length) st.
     bind (lift st (tvb_length_remaining t abs_offset)) (\<lambda>tvbufflen st.
       let limit = search_limit tvbufflen maxlength
       in case real_data t of
            Some d \<Rightarrow>
              bind (lift st (guint8_pbrk (drop (unat abs_offset) d) (unat limit) needles))
                (\<lambda>result st. case result of
                     None \<Rightarrow> Some (Return (- 1) st)
                   | Some j \<Rightarrow> Some (Return (word_of_nat (unat abs_offset + j)) st))
          | None \<Rightarrow>
              (case tvb_type t of
                 TVBUFF_REAL_DATA \<Rightarrow> Some (Throw DissectorError st)
               | TVBUFF_SUBSET \<Rightarrow>
                   (case subset_tvb t of
                      None \<Rightarrow> Some (Throw UndefinedBehaviour st)
                    | Some b \<Rightarrow>
                        tvb_pbrk_guint8 n st b (abs_offset - subset_offset t) limit needles)
               | TVBUFF_COMPOSITE \<Rightarrow> Some (Throw DissectorError st)))))"

definition tvb_strsize :: "nat \<Rightarrow> tvb_state \<Rightarrow> nat \<Rightarrow> gint \<Rightarrow> guint outcome option" where
  "tvb_strsize n st p offset =
     bind (deref st p) (\<lambda>t st.
     bind (lift st (check_offset_length t offset 0)) (\<lambda>(abs_offset, junk_length) st.
     bind (tvb_find_guint8 n st p abs_offset (- 1) 0) (\<lambda>nul_offset st.
       if nul_offset = - 1 then
         bind (deref st p) (\<lambda>t st.
         bind (lift st (tvb_length t)) (\<lambda>l st.
         bind (lift st (tvb_reported_length t)) (\<lambda>r st.
           if l < r then Some (Throw BoundsError st) else Some (Throw ReportedBoundsError st))))
       else Some (Return (nul_offset - abs_offset + 1) st))))"

section \<open>The gzip header walk of tvb_uncompress\<close>

text \<open>
  The branch of \<open>tvb_uncompress\<close> taken when \<open>inflate\<close> reports a data error on input
  that starts with the gzip magic. \<open>compr\<close> is the allocation \<open>tvb_memdup\<close> returned, the
  cursor \<open>c\<close> is an index into it, and \<open>rd\<close> is the read \<open>*c\<close>: outside the allocation it
  is undefined behaviour. The branch either returns null (\<open>GZ_NULL\<close>) or goes on to
  inflate from \<open>c\<close> with the remaining length (\<open>GZ_RETRY\<close>).
\<close>

datatype gzip_skip = GZ_NULL | GZ_RETRY nat int

definition rd :: "guint8 list \<Rightarrow> nat \<Rightarrow> exception + guint8" where
  "rd compr c = (if c < length compr then Inr (compr ! c) else Inl UndefinedBehaviour)"

function skip_string :: "guint8 list \<Rightarrow> int \<Rightarrow> nat \<Rightarrow> exception + nat" where
  "skip_string compr comprlen c =
     (if int c < comprlen then
        (case rd compr c of
           Inl e \<Rightarrow> Inl e
         | Inr b \<Rightarrow> if b \<noteq> 0 then skip_string compr comprlen (Suc c) else Inr c)
      else Inr c)"
  by pat_completeness auto
termination
  by (relation "measure (\<lambda>(compr, comprlen, c). nat (comprlen - int c))") auto

declare skip_string.simps [simp del]

definition Z_DEFLATED :: guint8 where
  "Z_DEFLATED = 8"

definition gzip_header_skip :: "guint8 list \<Rightarrow> int \<Rightarrow> exception + gzip_skip" where
  "gzip_header_skip compr comprlen =
     (case rd compr 2 of
        Inl e \<Rightarrow> Inl e
      | Inr method \<Rightarrow>
          if method \<noteq> Z_DEFLATED then Inr GZ_NULL
          else
            (case rd compr 3 of
               Inl e \<Rightarrow> Inl e
             | Inr flags \<Rightarrow>
                 (case (if flags AND 4 \<noteq> 0 then
                          (case rd compr 10 of
                             Inl e \<Rightarrow> Inl e
                           | Inr lo \<Rightarrow>
                               (case rd compr 11 of
                                  Inl e \<Rightarrow> Inl e
                                | Inr hi \<Rightarrow> Inr (10 + (unat lo + 256 * unat hi))))
                        else Inr 10) of
                    Inl e \<Rightarrow> Inl e
                  | Inr c \<Rightarrow>
                      (case (if flags AND 8 \<noteq> 0 then map_sum id Suc (skip_string compr comprlen c)
                             else Inr c) of
                         Inl e \<Rightarrow> Inl e
                       | Inr c \<Rightarrow>
                           (case (if flags AND 16 \<noteq> 0
                                  then map_sum id Suc (skip_string compr comprlen c)
                                  else Inr c) of
                              Inl e \<Rightarrow> Inl e
                            | Inr c \<Rightarrow>
                                if int c > comprlen then Inr GZ_NULL
                                else Inr (GZ_RETRY c (comprlen - int c)))))))"

section \<open>Example buffers\<close>

text \<open>
  The header of an initialised real-data buffer over the bytes \<open>d\<close>, as
  \<open>tvb_set_real_data\<close> fills it in.
\<close>

definition real_tvb :: "guint8 list \<Rightarrow> guint \<Rightarrow> guint \<Rightarrow> tvbuff_t" where
  "real_tvb d len rep = (tvb_init TVBUFF_REAL_DATA)\<lparr>real_data := Some d, length' := len,
     reported_length := rep, initialized := True\<rparr>"

text \<open>
  The buffers the search theorems are about: an initialised header whose \<open>real_data\<close>
  points at \<open>d\<close>, with at least \<open>length\<close> bytes there, \<open>length\<close> at most
  \<open>reported_length\<close>, and \<open>length\<close> a value a \<open>gint\<close> holds.
\<close>

definition direct_tvb :: "tvbuff_t \<Rightarrow> guint8 list \<Rightarrow> bool" where
  "direct_tvb B d \<longleftrightarrow>
     initialized B \<and> real_data B = Some d \<and> unat (length' B) \<le> length d \<and>
     length' B \<le> reported_length B \<and> length' B \<le> 0x7FFFFFFF"

text \<open>
  The state \<open>tvb_new_real_data\<close> leaves when it is called once, on the empty state: one
  real-data buffer, at address 0.
\<close>

definition one_real :: "guint8 list \<Rightarrow> guint \<Rightarrow> guint \<Rightarrow> tvb_state" where
  "one_real d len rep =
     empty_state\<lparr>heap := (\<lambda>_. None)(0 \<mapsto> (real_tvb d len rep)\<lparr>ds_tvb := Some 0\<rparr>),
       next_tvb := 1\<rparr>"

text \<open>
  The composite of two real-data buffers: \<open>A\<close> over the bytes 1, 2, 3 and \<open>B\<close> over the
  bytes 4, 5, each created with \<open>tvb_new_real_data\<close>, appended in this order to a new
  composite, which is then finalised. The result is the addresses of the composite, of
  \<open>A\<close> and of \<open>B\<close>.
\<close>

definition compose_AB :: "nat \<Rightarrow> (nat \<times> nat \<times> nat) outcome option" where
  "compose_AB n =
     bind (tvb_new_real_data n empty_state (Some [1, 2, 3]) 3 3) (\<lambda>a st.
     bind (tvb_new_real_data n st (Some [4, 5]) 2 2) (\<lambda>b st.
     bind (tvb_new_composite st) (\<lambda>c st.
     bind (tvb_composite_append st c a) (\<lambda>_ st.
     bind (tvb_composite_append st c b) (\<lambda>_ st.
     bind (tvb_composite_finalize st c) (\<lambda>_ st. Some (Return (c, a, b) st)))))))"

section \<open>Bounds arithmetic: the classification of an access\<close>

lemma unat_minus_one_guint: "unat (- 1 :: guint) = 2 ^ 32 - 1"
  by (simp add: unsigned_minus_1_eq_mask mask_eq_exp_minus_1)

lemma end_offset_clamp:
  "unat (if (a::guint) + b < a then - 1 else a + b) = min (unat a + unat b) (2 ^ 32 - 1)"
proof -
  have la: "unat a < 2 ^ 32" and lb: "unat b < 2 ^ 32"
    using unsigned_less [of a] unsigned_less [of b] by simp_all
  show ?thesis
    using la lb
    by (simp only: unat_minus_one_guint word_less_nat_alt unat_plus_if' split: if_splits)
       (simp, arith)
qed

text \<open>
  C1. When the normalisation of \<open>(offset, len)\<close> succeeds with \<open>(abs_offset, abs_length)\<close>,
  both entry points of the bounds check classify the access by the sum
  \<open>abs_offset + abs_length\<close>, clamped to the largest unsigned value: in bounds when it is at
  most \<open>length\<close>, else \<open>BoundsError\<close> (captured-bounds) when it is at most
  \<open>reported_length\<close>, else \<open>ReportedBoundsError\<close>.
\<close>

theorem bounds_classification:
  assumes "initialized B"
    and "compute_offset_length B offset len = Inr (abs_offset, abs_length)"
  shows "check_offset_length_no_exception B offset len =
           (if min (unat abs_offset + unat abs_length) (2 ^ 32 - 1) \<le> unat (length' B)
            then Inr (abs_offset, abs_length)
            else if min (unat abs_offset + unat abs_length) (2 ^ 32 - 1) \<le> unat (reported_length B)
            then Inl BoundsError else Inl ReportedBoundsError)
       \<and> check_offset_length B offset len =
           (if min (unat abs_offset + unat abs_length) (2 ^ 32 - 1) \<le> unat (length' B)
            then Inr (abs_offset, abs_length)
            else if min (unat abs_offset + unat abs_length) (2 ^ 32 - 1) \<le> unat (reported_length B)
            then Inl BoundsError else Inl ReportedBoundsError)"
  using assms end_offset_clamp [of abs_offset abs_length]
  by (simp add: check_offset_length_def check_offset_length_no_exception_def Let_def
      word_le_nat_alt)

theorem bounds_classification_witness:
  "initialized (real_tvb [1, 2, 3, 4] 4 16)
   \<and> compute_offset_length (real_tvb [1, 2, 3, 4] 4 16) 2 4 = Inr (2, 4)
   \<and> check_offset_length_no_exception (real_tvb [1, 2, 3, 4] 4 16) 2 4 = Inl BoundsError
   \<and> check_offset_length (real_tvb [1, 2, 3, 4] 4 16) 2 4 = Inl BoundsError"
proof -
  have i: "initialized (real_tvb [1, 2, 3, 4] 4 16)"
    by (simp add: real_tvb_def)
  have c: "compute_offset_length (real_tvb [1, 2, 3, 4] 4 16) 2 4 = Inr (2, 4)"
    by (simp add: real_tvb_def compute_offset_length_def compute_length_def tvb_init_def)
  show ?thesis
    using i c bounds_classification [OF i c] by (simp add: real_tvb_def tvb_init_def)
qed

text \<open>
  C8. On an initialised buffer, \<open>tvb_ensure_bytes_exist\<close> throws \<open>ReportedBoundsError\<close> for
  every negative length, whatever the offset and the two lengths of the buffer are. For a
  length that is not negative it throws exactly when the offset does not normalise or
  the end \<open>abs_offset + len\<close> (clamped) lies beyond \<open>length\<close>, and the exception is the
  one of the captured/reported classification.
\<close>

theorem ensure_bytes_exist_raises:
  assumes "initialized B"
  shows "(sint len < 0 \<longrightarrow> tvb_ensure_bytes_exist B offset len = Inl ReportedBoundsError)
       \<and> (0 \<le> sint len \<longrightarrow>
            tvb_ensure_bytes_exist B offset len =
              (case compute_offset_length B offset len of
                 Inl e \<Rightarrow> Inl e
               | Inr (abs_offset, abs_length) \<Rightarrow>
                   if min (unat abs_offset + unat len) (2 ^ 32 - 1) \<le> unat (length' B)
                   then Inr ()
                   else if min (unat abs_offset + unat len) (2 ^ 32 - 1) \<le> unat (reported_length B)
                   then Inl BoundsError else Inl ReportedBoundsError))"
proof (intro conjI impI)
  assume "sint len < 0"
  then show "tvb_ensure_bytes_exist B offset len = Inl ReportedBoundsError"
    using assms by (simp add: tvb_ensure_bytes_exist_def)
next
  assume n: "0 \<le> sint len"
  then have m: "len \<noteq> - 1" by auto
  have l: "\<not> sint len < - 1" using n by simp
  show "tvb_ensure_bytes_exist B offset len =
              (case compute_offset_length B offset len of
                 Inl e \<Rightarrow> Inl e
               | Inr (abs_offset, abs_length) \<Rightarrow>
                   if min (unat abs_offset + unat len) (2 ^ 32 - 1) \<le> unat (length' B)
                   then Inr ()
                   else if min (unat abs_offset + unat len) (2 ^ 32 - 1) \<le> unat (reported_length B)
                   then Inl BoundsError else Inl ReportedBoundsError)"
  proof (cases "compute_offset_length B offset len")
    case (Inl e)
    then show ?thesis
      using assms n
      by (simp add: tvb_ensure_bytes_exist_def check_offset_length_def
          check_offset_length_no_exception_def)
  next
    case (Inr r)
    obtain abs_offset abs_length where r: "r = (abs_offset, abs_length)" by (cases r)
    have al: "abs_length = len"
      using Inr r m l
      by (auto simp: compute_offset_length_def compute_length_def split: if_splits)
    have c: "compute_offset_length B offset len = Inr (abs_offset, len)"
      using Inr r al by simp
    have "check_offset_length B offset len =
        (if min (unat abs_offset + unat len) (2 ^ 32 - 1) \<le> unat (length' B)
         then Inr (abs_offset, len)
         else if min (unat abs_offset + unat len) (2 ^ 32 - 1) \<le> unat (reported_length B)
         then Inl BoundsError else Inl ReportedBoundsError)"
      using assms c end_offset_clamp [of abs_offset len]
      by (simp add: check_offset_length_def check_offset_length_no_exception_def Let_def
          word_le_nat_alt)
    then show ?thesis
      using assms n c by (simp add: tvb_ensure_bytes_exist_def)
  qed
qed

theorem ensure_bytes_exist_raises_witness:
  "initialized (real_tvb [1, 2, 3, 4] 4 16)
   \<and> sint (- 1 :: gint) < 0
   \<and> tvb_ensure_bytes_exist (real_tvb [1, 2, 3, 4] 4 16) 0 (- 1) = Inl ReportedBoundsError
   \<and> 0 \<le> sint (8 :: gint)
   \<and> tvb_ensure_bytes_exist (real_tvb [1, 2, 3, 4] 4 16) 2 8 = Inl BoundsError
   \<and> tvb_ensure_bytes_exist (real_tvb [1, 2, 3, 4] 4 16) 2 2 = Inr ()"
proof -
  have i: "initialized (real_tvb [1, 2, 3, 4] 4 16)"
    by (simp add: real_tvb_def)
  show ?thesis
    using i ensure_bytes_exist_raises [OF i, of "- 1" 0]
      ensure_bytes_exist_raises [OF i, of 8 2] ensure_bytes_exist_raises [OF i, of 2 2]
    by (simp add: real_tvb_def tvb_init_def compute_offset_length_def compute_length_def)
qed

section \<open>Running the store operations\<close>

lemmas monad_defs = bind_def lift_def deref_def store_def DISSECTOR_ASSERT_def Let_def

lemma bind_return: "bind m (\<lambda>v st. Some (Return v st)) = m"
  by (simp add: bind_def split: option.splits outcome.splits)

lemma new_real_data_empty:
  "- 1 \<le> sint reported_len \<Longrightarrow>
   tvb_new_real_data n empty_state (Some d) len reported_len =
     Some (Return 0 (one_real d len reported_len))"
  by (simp add: tvb_new_real_data_def tvb_new_def tvb_set_real_data_def monad_defs
      tvb_init_def empty_state_def one_real_def real_tvb_def not_less)

section \<open>The offset just past the last byte\<close>

lemma subset_at_end:
  assumes "heap st b = Some T" "initialized T" "length' T = 10" "reported_length T = 10"
     "last_tvb_subset st = None" "next_tvb st \<noteq> b"
  shows "\<exists>st'. tvb_new_subset n st b 10 0 0 = Some (Return (next_tvb st) st')
            \<and> map_option length' (heap st' (next_tvb st)) = Some 0
            \<and> (\<exists>st''. tvb_get_guint8 (Suc m) st' (next_tvb st) 0 =
                   Some (Throw ReportedBoundsError st''))"
proof (cases "real_data T")
  case None
  show ?thesis
    using assms None
    by (simp add: tvb_new_subset_def tvb_new_def tvb_set_subset_def monad_defs tvb_init_def
        check_offset_length_def check_offset_length_no_exception_def compute_offset_length_def
        compute_length_def add_to_used_in_list_def tvb_increment_usage_count_def
        tvb_get_guint8_def fast_ensure_contiguous_def ensure_contiguous_def)
next
  case (Some d)
  show ?thesis
    using assms Some
    by (simp add: tvb_new_subset_def tvb_new_def tvb_set_subset_def monad_defs tvb_init_def
        check_offset_length_def check_offset_length_no_exception_def compute_offset_length_def
        compute_length_def add_to_used_in_list_def tvb_increment_usage_count_def
        tvb_get_guint8_def fast_ensure_contiguous_def ensure_contiguous_def)
qed

text \<open>
  C2, as the code has it. The access at offset \<open>length\<close> with length 0 is in bounds on
  every initialised buffer whose \<open>length\<close> is at most its \<open>reported_length\<close> and is a
  value a \<open>gint\<close> offset can hold. And for a backing buffer \<open>b\<close> of length 10 and
  reported length 10, in a state where no failed \<open>tvb_new_subset\<close> is pending and the
  next address of the allocator is not \<open>b\<close>, \<open>tvb_new_subset\<close> at \<open>(10, 0, 0)\<close> returns a
  buffer of length 0 on which \<open>tvb_get_guint8\<close> at offset 0 throws
  \<open>ReportedBoundsError\<close>.
\<close>

theorem offset_at_length_in_bounds:
  "(initialized B \<and> length' B \<le> reported_length B \<and> 0 \<le> sint (length' B) \<longrightarrow>
      check_offset_length_no_exception B (length' B) 0 = Inr (length' B, 0)
      \<and> check_offset_length B (length' B) 0 = Inr (length' B, 0))
   \<and> (heap st b = Some T \<and> initialized T \<and> length' T = 10 \<and> reported_length T = 10
        \<and> last_tvb_subset st = None \<and> next_tvb st \<noteq> b \<longrightarrow>
        (\<exists>st'. tvb_new_subset n st b 10 0 0 = Some (Return (next_tvb st) st')
            \<and> map_option length' (heap st' (next_tvb st)) = Some 0
            \<and> (\<exists>st''. tvb_get_guint8 (Suc m) st' (next_tvb st) 0 =
                   Some (Throw ReportedBoundsError st''))))"
proof (intro conjI impI)
  assume a: "initialized B \<and> length' B \<le> reported_length B \<and> 0 \<le> sint (length' B)"
  then show "check_offset_length_no_exception B (length' B) 0 = Inr (length' B, 0)"
    by (simp add: check_offset_length_no_exception_def compute_offset_length_def
        compute_length_def not_less)
  then show "check_offset_length B (length' B) 0 = Inr (length' B, 0)"
    by (simp add: check_offset_length_def)
next
  assume "heap st b = Some T \<and> initialized T \<and> length' T = 10 \<and> reported_length T = 10
        \<and> last_tvb_subset st = None \<and> next_tvb st \<noteq> b"
  then show "\<exists>st'. tvb_new_subset n st b 10 0 0 = Some (Return (next_tvb st) st')
            \<and> map_option length' (heap st' (next_tvb st)) = Some 0
            \<and> (\<exists>st''. tvb_get_guint8 (Suc m) st' (next_tvb st) 0 =
                   Some (Throw ReportedBoundsError st''))"
    using subset_at_end [of st b T n m] by simp
qed

theorem offset_at_length_in_bounds_witness:
  "check_offset_length (real_tvb [0, 1, 2, 3, 4, 5, 6, 7, 8, 9] 10 10) 10 0 = Inr (10, 0)
   \<and> (\<exists>st'. tvb_new_subset 0 (one_real [0, 1, 2, 3, 4, 5, 6, 7, 8, 9] 10 10) 0 10 0 0 =
               Some (Return 1 st')
          \<and> map_option length' (heap st' 1) = Some 0
          \<and> (\<exists>st''. tvb_get_guint8 1 st' 1 0 = Some (Throw ReportedBoundsError st'')))"
  using offset_at_length_in_bounds [of "real_tvb [0, 1, 2, 3, 4, 5, 6, 7, 8, 9] 10 10"
      "one_real [0, 1, 2, 3, 4, 5, 6, 7, 8, 9] 10 10" 0
      "(real_tvb [0, 1, 2, 3, 4, 5, 6, 7, 8, 9] 10 10)\<lparr>ds_tvb := Some 0\<rparr>" 0 0]
  by (simp add: real_tvb_def one_real_def empty_state_def tvb_init_def)

theorem offset_at_length_counterexample:
  "\<exists>st B. tvb_new_real_data 0 empty_state (Some [0, 1, 2, 3, 4, 5, 6, 7, 8, 9]) 10 5 =
             Some (Return 0 st)
        \<and> heap st 0 = Some B \<and> initialized B \<and> length' B = 10
        \<and> check_offset_length_no_exception B (length' B) 0 = Inl ReportedBoundsError"
  by (simp add: new_real_data_empty one_real_def real_tvb_def tvb_init_def
      check_offset_length_no_exception_def compute_offset_length_def)

section \<open>Bit fields at byte-aligned offsets\<close>

lemma aligned_low_bits: "(8 * (k :: gint)) AND 7 = 0"
proof -
  have "8 * k = push_bit 3 k" by (simp add: push_bit_eq_mult)
  moreover have "(7 :: gint) = mask 3" by (simp add: mask_eq_exp_minus_1)
  ultimately have "(8 * k) AND 7 = take_bit 3 (push_bit 3 k)"
    by (simp add: take_bit_eq_mask)
  then show ?thesis by (simp add: take_bit_push_bit)
qed

lemma aligned_byte_offset:
  assumes "- (2 ^ 28) \<le> sint (k :: gint)" and "sint k < 2 ^ 28"
  shows "signed_drop_bit 3 (8 * k) = k"
proof (rule signed_word_eqI)
  have e: "8 * k = push_bit 3 k" by (simp add: push_bit_eq_mult)
  have "sint (push_bit 3 k) = signed_take_bit 31 (push_bit 3 (sint k))"
    by (simp add: signed_push_bit_eq)
  also have "\<dots> = push_bit 3 (sint k)"
    using assms by (intro signed_take_bit_int_eq_self) (simp_all add: push_bit_eq_mult)
  finally have "sint (8 * k) = push_bit 3 (sint k)" using e by simp
  then show "sint (signed_drop_bit 3 (8 * k)) = sint k"
    by (simp add: sint_signed_drop_bit_eq drop_bit_push_bit)
qed

lemma and_all_ones:
  "(a :: guint8) AND 0xff = a" "(b :: guint16) AND 0xffff = b"
  "(c :: guint) AND 0xffffffff = c" "(d :: guint64) AND 0xffffffffffffffff = d"
proof -
  have "(0xff :: guint8) = - 1" "(0xffff :: guint16) = - 1" "(0xffffffff :: guint) = - 1"
    "(0xffffffffffffffff :: guint64) = - 1" by simp_all
  then show "a AND 0xff = a" "b AND 0xffff = b" "c AND 0xffffffff = c"
    "d AND 0xffffffffffffffff = d"
    by (simp_all only: word_and_max)
qed

lemma ucast_8_16_8: "(ucast (ucast (b :: guint8) :: guint16) :: guint8) = b"
  by (simp add: ucast_up_ucast_id is_up)

lemma bits8_aligned:
  assumes "- (2 ^ 28) \<le> sint (k :: gint)" and "sint k < 2 ^ 28"
  shows "tvb_get_bits8 n st p (8 * k) 8 = tvb_get_guint8 n st p k"
  using aligned_byte_offset [OF assms]
  by (simp add: tvb_get_bits8_def aligned_low_bits bit_mask8_def and_all_ones ucast_8_16_8
      bind_return Let_def)

lemma bits16_aligned:
  assumes "- (2 ^ 28) \<le> sint (k :: gint)" and "sint k < 2 ^ 28"
  shows "tvb_get_bits16 n st p (8 * k) 16 False = tvb_get_ntohs n st p k"
  using aligned_byte_offset [OF assms]
  by (simp add: tvb_get_bits16_def aligned_low_bits bit_mask16_def and_all_ones
      bind_return Let_def)

lemma bits32_aligned:
  assumes "- (2 ^ 28) \<le> sint (k :: gint)" and "sint k < 2 ^ 28"
  shows "tvb_get_bits32 n st p (8 * k) 32 False = tvb_get_ntohl n st p k"
  using aligned_byte_offset [OF assms]
  by (simp add: tvb_get_bits32_def aligned_low_bits bit_mask32_def and_all_ones
      bind_return Let_def)

lemma bits64_aligned:
  assumes "- (2 ^ 28) \<le> sint (k :: gint)" and "sint k < 2 ^ 28"
  shows "tvb_get_bits64 n st p (8 * k) 64 False = tvb_get_ntoh64 n st p k"
  using aligned_byte_offset [OF assms]
  by (simp add: tvb_get_bits64_def aligned_low_bits bit_mask64_def and_all_ones
      bind_return Let_def)

text \<open>
  C7. At a byte-aligned bit offset \<open>8 * k\<close> (a bit offset a \<open>gint\<close> holds, so \<open>k\<close> lies
  between \<open>-2^28\<close> and \<open>2^28 - 1\<close>) the bit-field accessors, asked for the whole width in
  big-endian order, are the big-endian integer accessors at byte offset \<open>k\<close>: the same
  value when the read succeeds, the same exception when it does not, and the same state.
\<close>

theorem aligned_bits_are_integers:
  assumes "- (2 ^ 28) \<le> sint (k :: gint)" and "sint k < 2 ^ 28"
  shows "tvb_get_bits8 n st p (8 * k) 8 = tvb_get_guint8 n st p k
       \<and> tvb_get_bits16 n st p (8 * k) 16 False = tvb_get_ntohs n st p k
       \<and> tvb_get_bits32 n st p (8 * k) 32 False = tvb_get_ntohl n st p k
       \<and> tvb_get_bits64 n st p (8 * k) 64 False = tvb_get_ntoh64 n st p k"
  using bits8_aligned [OF assms] bits16_aligned [OF assms] bits32_aligned [OF assms]
    bits64_aligned [OF assms]
  by simp

theorem aligned_bits_are_integers_witness:
  "- (2 ^ 28) \<le> sint (1 :: gint) \<and> sint (1 :: gint) < 2 ^ 28
   \<and> tvb_get_bits8 0 (one_real [0xCA, 0xF0, 1, 2, 3, 4, 5, 6, 7, 8] 10 10) 0 (8 * 1) 8 =
       Some (Return 0xF0 (one_real [0xCA, 0xF0, 1, 2, 3, 4, 5, 6, 7, 8] 10 10))
   \<and> tvb_get_bits16 0 (one_real [0xCA, 0xF0, 1, 2, 3, 4, 5, 6, 7, 8] 10 10) 0 (8 * 1) 16 False =
       Some (Return 0xF001 (one_real [0xCA, 0xF0, 1, 2, 3, 4, 5, 6, 7, 8] 10 10))
   \<and> tvb_get_bits32 0 (one_real [0xCA, 0xF0, 1, 2, 3, 4, 5, 6, 7, 8] 10 10) 0 (8 * 1) 32 False =
       Some (Return 0xF0010203 (one_real [0xCA, 0xF0, 1, 2, 3, 4, 5, 6, 7, 8] 10 10))
   \<and> tvb_get_bits64 0 (one_real [0xCA, 0xF0, 1, 2, 3, 4, 5, 6, 7, 8] 10 10) 0 (8 * 1) 64 False =
       Some (Return 0xF001020304050607 (one_real [0xCA, 0xF0, 1, 2, 3, 4, 5, 6, 7, 8] 10 10))"
proof -
  have r: "- (2 ^ 28) \<le> sint (1 :: gint)" "sint (1 :: gint) < 2 ^ 28" by simp_all
  show ?thesis
    using r aligned_bits_are_integers [OF r, of 0
        "one_real [0xCA, 0xF0, 1, 2, 3, 4, 5, 6, 7, 8] 10 10" 0]
    by (simp add: tvb_get_guint8_def tvb_get_ntohs_def tvb_get_ntohl_def tvb_get_ntoh64_def
        fast_ensure_contiguous_def monad_defs one_real_def real_tvb_def tvb_init_def
        empty_state_def octets_def pntoh_def)
qed

section \<open>Searching a buffer with a direct data pointer\<close>

lemma guint8_find_loop_first:
  "r \<le> length b \<Longrightarrow>
   guint8_find_loop b r needle i =
     Inr (if needle \<in> set (take r b)
          then Some (i + length (takeWhile (\<lambda>x. x \<noteq> needle) (take r b))) else None)"
  by (induction b r needle i rule: guint8_find_loop.induct) auto

lemma guint8_pbrk_loop_first:
  "r \<le> length b \<Longrightarrow>
   guint8_pbrk_loop b r needles i =
     Inr (if \<exists>x \<in> set (take r b). x \<in> set (takeWhile (\<lambda>c. c \<noteq> 0) needles)
          then Some (i + length (takeWhile (\<lambda>x. x \<notin> set (takeWhile (\<lambda>c. c \<noteq> 0) needles)) (take r b)))
          else None)"
  by (induction b r needles i rule: guint8_pbrk_loop.induct) auto

lemma sint_small:
  assumes "w \<le> (0x7FFFFFFF :: guint)"
  shows "sint w = uint w"
proof -
  have "uint w \<le> uint (0x7FFFFFFF :: guint)"
    using assms by (simp only: word_le_def)
  then have u: "uint w < 2 ^ 31" by simp
  have "sint w = signed_take_bit 31 (uint w)"
    by (simp add: sint_uint)
  also have "\<dots> = uint w"
  proof (rule signed_take_bit_int_eq_self)
    have "0 \<le> uint w" by simp
    moreover have "- (2 ^ 31) \<le> (0 :: int)" by simp
    ultimately show "- (2 ^ 31) \<le> uint w" by (rule order_trans [rotated])
    show "uint w < 2 ^ 31" by (fact u)
  qed
  finally show ?thesis .
qed

lemma check_zero_length:
  assumes "direct_tvb B d" and "check_offset_length B offset 0 = Inr (ao, l0)"
  shows "l0 = 0" and "ao \<le> length' B" and "0 \<le> sint ao" and "ao \<le> reported_length B"
proof -
  have c: "compute_offset_length B offset 0 = Inr (ao, l0)"
    using assms
    by (auto simp: check_offset_length_def check_offset_length_no_exception_def Let_def
        split: if_splits sum.splits)
  then show l: "l0 = 0"
    by (auto simp: compute_offset_length_def compute_length_def split: if_splits)
  show a: "ao \<le> length' B"
    using assms c l
    by (auto simp: check_offset_length_def check_offset_length_no_exception_def Let_def
        split: if_splits)
  have "ao \<le> 0x7FFFFFFF"
    using a assms(1) by (auto simp: direct_tvb_def)
  then show "0 \<le> sint ao"
    by (simp add: sint_small)
  show "ao \<le> reported_length B"
    using a assms(1) by (auto simp: direct_tvb_def)
qed

lemma length_remaining_direct:
  assumes "direct_tvb B d" and "check_offset_length B offset 0 = Inr (ao, l0)"
  shows "tvb_length_remaining B ao = Inr (length' B - ao)"
  using check_zero_length [OF assms] assms(1)
  by (auto simp: tvb_length_remaining_def compute_offset_length_def compute_length_def
      direct_tvb_def)

lemma search_limit_unat:
  assumes "ao \<le> len"
  shows "unat (search_limit (len - ao) maxlength) =
           (if maxlength = - 1 \<or> unat len - unat ao < unat maxlength
            then unat len - unat ao else unat maxlength)"
  using assms by (simp add: search_limit_def word_less_nat_alt unat_sub)

lemma search_window_fits:
  assumes "direct_tvb B d" and "ao \<le> length' B"
  shows "(if maxlength = - 1 \<or> unat (length' B) - unat ao < unat (maxlength :: gint)
          then unat (length' B) - unat ao else unat maxlength)
         \<le> length (drop (unat ao) d)"
  using assms by (auto simp: direct_tvb_def)

lemma find_guint8_direct:
  assumes h: "heap st p = Some B" and d: "direct_tvb B d"
    and c: "check_offset_length B offset 0 = Inr (ao, l0)"
  shows "tvb_find_guint8 (Suc n) st p offset maxlength needle =
     Some (Return
       (let limit = (if maxlength = - 1 \<or> unat (length' B) - unat ao < unat maxlength
                     then unat (length' B) - unat ao else unat maxlength);
            window = take limit (drop (unat ao) d)
        in if needle \<in> set window
           then word_of_nat (unat ao + length (takeWhile (\<lambda>x. x \<noteq> needle) window))
           else - 1) st)"
proof -
  note z = check_zero_length [OF d c]
  have r: "real_data B = Some d" using d by (simp add: direct_tvb_def)
  show ?thesis
    using h c r length_remaining_direct [OF d c] search_limit_unat [OF z(2), of maxlength]
      guint8_find_loop_first [OF search_window_fits [OF d z(2), of maxlength], of needle 0]
    by (simp add: monad_defs guint8_find_def)
qed

lemma pbrk_guint8_direct:
  assumes h: "heap st p = Some B" and d: "direct_tvb B d"
    and c: "check_offset_length B offset 0 = Inr (ao, l0)"
  shows "tvb_pbrk_guint8 (Suc n) st p offset maxlength needles =
     Some (Return
       (let limit = (if maxlength = - 1 \<or> unat (length' B) - unat ao < unat maxlength
                     then unat (length' B) - unat ao else unat maxlength);
            window = take limit (drop (unat ao) d);
            N = set (takeWhile (\<lambda>c. c \<noteq> 0) needles)
        in if \<exists>x \<in> set window. x \<in> N
           then word_of_nat (unat ao + length (takeWhile (\<lambda>x. x \<notin> N) window))
           else - 1) st)"
proof -
  note z = check_zero_length [OF d c]
  have r: "real_data B = Some d" using d by (simp add: direct_tvb_def)
  show ?thesis
    using h c r length_remaining_direct [OF d c] search_limit_unat [OF z(2), of maxlength]
      guint8_pbrk_loop_first [OF search_window_fits [OF d z(2), of maxlength], of needles 0]
    by (simp add: monad_defs guint8_pbrk_def)
qed

lemma find_out_of_range:
  assumes "heap st p = Some B" and "check_offset_length B offset 0 = Inl e"
  shows "tvb_find_guint8 (Suc n) st p offset maxlength needle = Some (Throw e st)"
    and "tvb_pbrk_guint8 (Suc n) st p offset maxlength needles = Some (Throw e st)"
  using assms by (simp_all add: monad_defs)

text \<open>
  C5, as the code has it. On an initialised buffer with a direct data pointer to its
  \<open>length\<close> captured bytes (\<open>length\<close> at most \<open>reported_length\<close> and at most \<open>2^31 - 1\<close>),
  at an offset the bounds check accepts, \<open>tvb_find_guint8\<close> and \<open>tvb_pbrk_guint8\<close> return
  without an exception and leave the state as it is. They look at the first \<open>limit\<close>
  bytes from the absolute offset, where \<open>limit\<close> is the number of captured bytes that
  remain when \<open>maxlength\<close> is \<open>-1\<close> or larger than that number, and \<open>maxlength\<close> otherwise;
  they return the absolute offset of the first match there, and \<open>-1\<close> when there is none.
  At an offset the bounds check rejects, both throw the exception of that check.
\<close>

theorem find_in_range:
  assumes "heap st p = Some B" and "direct_tvb B d"
  shows "(\<forall>ao l0. check_offset_length B offset 0 = Inr (ao, l0) \<longrightarrow>
            tvb_find_guint8 (Suc n) st p offset maxlength needle =
              Some (Return
                (let limit = (if maxlength = - 1 \<or> unat (length' B) - unat ao < unat maxlength
                              then unat (length' B) - unat ao else unat maxlength);
                     window = take limit (drop (unat ao) d)
                 in if needle \<in> set window
                    then word_of_nat (unat ao + length (takeWhile (\<lambda>x. x \<noteq> needle) window))
                    else - 1) st)
          \<and> tvb_pbrk_guint8 (Suc n) st p offset maxlength needles =
              Some (Return
                (let limit = (if maxlength = - 1 \<or> unat (length' B) - unat ao < unat maxlength
                              then unat (length' B) - unat ao else unat maxlength);
                     window = take limit (drop (unat ao) d);
                     N = set (takeWhile (\<lambda>c. c \<noteq> 0) needles)
                 in if \<exists>x \<in> set window. x \<in> N
                    then word_of_nat (unat ao + length (takeWhile (\<lambda>x. x \<notin> N) window))
                    else - 1) st))
       \<and> (\<forall>e. check_offset_length B offset 0 = Inl e \<longrightarrow>
            tvb_find_guint8 (Suc n) st p offset maxlength needle = Some (Throw e st)
          \<and> tvb_pbrk_guint8 (Suc n) st p offset maxlength needles = Some (Throw e st))"
proof (intro conjI allI impI)
  fix ao l0
  assume "check_offset_length B offset 0 = Inr (ao, l0)"
  then show "tvb_find_guint8 (Suc n) st p offset maxlength needle =
      Some (Return
        (let limit = (if maxlength = - 1 \<or> unat (length' B) - unat ao < unat maxlength
                      then unat (length' B) - unat ao else unat maxlength);
             window = take limit (drop (unat ao) d)
         in if needle \<in> set window
            then word_of_nat (unat ao + length (takeWhile (\<lambda>x. x \<noteq> needle) window))
            else - 1) st)"
    by (rule find_guint8_direct [OF assms])
next
  fix ao l0
  assume "check_offset_length B offset 0 = Inr (ao, l0)"
  then show "tvb_pbrk_guint8 (Suc n) st p offset maxlength needles =
      Some (Return
        (let limit = (if maxlength = - 1 \<or> unat (length' B) - unat ao < unat maxlength
                      then unat (length' B) - unat ao else unat maxlength);
             window = take limit (drop (unat ao) d);
             N = set (takeWhile (\<lambda>c. c \<noteq> 0) needles)
         in if \<exists>x \<in> set window. x \<in> N
            then word_of_nat (unat ao + length (takeWhile (\<lambda>x. x \<notin> N) window))
            else - 1) st)"
    by (rule pbrk_guint8_direct [OF assms])
next
  fix e
  assume "check_offset_length B offset 0 = Inl e"
  then show "tvb_find_guint8 (Suc n) st p offset maxlength needle = Some (Throw e st)"
    by (rule find_out_of_range(1) [OF assms(1)])
next
  fix e
  assume "check_offset_length B offset 0 = Inl e"
  then show "tvb_pbrk_guint8 (Suc n) st p offset maxlength needles = Some (Throw e st)"
    by (rule find_out_of_range(2) [OF assms(1)])
qed

theorem find_in_range_witness:
  "heap (one_real [65, 66, 0, 67] 4 16) 0 = Some ((real_tvb [65, 66, 0, 67] 4 16)\<lparr>ds_tvb := Some 0\<rparr>)
   \<and> direct_tvb ((real_tvb [65, 66, 0, 67] 4 16)\<lparr>ds_tvb := Some 0\<rparr>) [65, 66, 0, 67]
   \<and> tvb_find_guint8 1 (one_real [65, 66, 0, 67] 4 16) 0 1 (- 1) 67 =
       Some (Return 3 (one_real [65, 66, 0, 67] 4 16))
   \<and> tvb_pbrk_guint8 1 (one_real [65, 66, 0, 67] 4 16) 0 1 (- 1) [67, 66, 0, 65] =
       Some (Return 1 (one_real [65, 66, 0, 67] 4 16))
   \<and> tvb_find_guint8 1 (one_real [65, 66, 0, 67] 4 16) 0 1 2 67 =
       Some (Return (- 1) (one_real [65, 66, 0, 67] 4 16))
   \<and> tvb_find_guint8 1 (one_real [65, 66, 0, 67] 4 16) 0 5 (- 1) 67 =
       Some (Throw BoundsError (one_real [65, 66, 0, 67] 4 16))"
proof -
  let ?B = "(real_tvb [65, 66, 0, 67] 4 16)\<lparr>ds_tvb := Some 0\<rparr>"
  let ?st = "one_real [65, 66, 0, 67] 4 16"
  have h: "heap ?st 0 = Some ?B"
    by (simp add: one_real_def empty_state_def)
  have d: "direct_tvb ?B [65, 66, 0, 67]"
    by (simp add: direct_tvb_def real_tvb_def)
  have c1: "check_offset_length ?B 1 0 = Inr (1, 0)"
    by (simp add: check_offset_length_def check_offset_length_no_exception_def
        compute_offset_length_def compute_length_def real_tvb_def)
  have c5: "check_offset_length ?B 5 0 = Inl BoundsError"
    by (simp add: check_offset_length_def check_offset_length_no_exception_def
        compute_offset_length_def compute_length_def real_tvb_def)
  show ?thesis
    using h d c1 c5
      find_in_range [OF h d, of 1 0 "- 1" 67 "[67, 66, 0, 65]"]
      find_in_range [OF h d, of 1 0 2 67 "[]"]
      find_in_range [OF h d, of 5 0 "- 1" 67 "[]"]
    by (simp add: real_tvb_def del: tvb_find_guint8.simps tvb_pbrk_guint8.simps)
qed

theorem find_raises_counterexample:
  "initialized (real_tvb [65, 66, 0, 67] 4 16)
   \<and> heap (one_real [65, 66, 0, 67] 4 16) 0 =
       Some ((real_tvb [65, 66, 0, 67] 4 16)\<lparr>ds_tvb := Some 0\<rparr>)
   \<and> tvb_find_guint8 1 (one_real [65, 66, 0, 67] 4 16) 0 20 (- 1) 0 =
       Some (Throw ReportedBoundsError (one_real [65, 66, 0, 67] 4 16))
   \<and> tvb_pbrk_guint8 1 (one_real [65, 66, 0, 67] 4 16) 0 20 (- 1) [65] =
       Some (Throw ReportedBoundsError (one_real [65, 66, 0, 67] 4 16))"
  by (simp add: monad_defs one_real_def empty_state_def real_tvb_def tvb_init_def
      check_offset_length_def check_offset_length_no_exception_def compute_offset_length_def)

section \<open>The size of a null-terminated string\<close>

lemma check_abs_offset:
  assumes d: "direct_tvb B d" and c: "check_offset_length B offset 0 = Inr (ao, l0)"
  shows "check_offset_length B ao 0 = Inr (ao, 0)"
  using check_zero_length [OF d c] d
  by (auto simp: check_offset_length_def check_offset_length_no_exception_def
      compute_offset_length_def compute_length_def direct_tvb_def)

lemma found_offset_not_minus_one:
  assumes "m \<le> unat (len :: guint)" and "len \<le> 0x7FFFFFFF"
  shows "(word_of_nat m :: guint) \<noteq> - 1"
proof
  assume e: "(word_of_nat m :: guint) = - 1"
  have "unat len \<le> unat (0x7FFFFFFF :: guint)"
    using assms(2) by (simp only: word_le_nat_alt)
  then have m: "m < 2 ^ 31" using assms(1) by simp
  then have "m < 2 ^ 32" by simp
  then have "unat (word_of_nat m :: guint) = m"
    by (simp add: unat_of_nat)
  then show False using e m by (simp add: unat_minus_one_guint)
qed

lemma strsize_direct:
  assumes h: "heap st p = Some B" and d: "direct_tvb B d"
    and c: "check_offset_length B offset 0 = Inr (ao, l0)"
  shows "tvb_strsize (Suc n) st p offset =
     (let window = take (unat (length' B) - unat ao) (drop (unat ao) d)
      in if 0 \<in> set window
         then Some (Return (word_of_nat (length (takeWhile (\<lambda>x. x \<noteq> 0) window) + 1)) st)
         else Some (Throw (if length' B < reported_length B then BoundsError
                           else ReportedBoundsError) st))"
proof -
  let ?window = "take (unat (length' B) - unat ao) (drop (unat ao) d)"
  let ?j = "length (takeWhile (\<lambda>x. x \<noteq> 0) ?window)"
  note z = check_zero_length [OF d c]
  have i: "initialized B" and l: "length' B \<le> 0x7FFFFFFF"
    using d by (simp_all add: direct_tvb_def)
  have f: "tvb_find_guint8 (Suc n) st p ao (- 1) 0 =
      Some (Return (if 0 \<in> set ?window then word_of_nat (unat ao + ?j) else - 1) st)"
    using find_guint8_direct [OF h d check_abs_offset [OF d c], of n "- 1" 0]
    by (simp add: Let_def)
  have "?j \<le> length ?window" by (rule length_takeWhile_le)
  also have "\<dots> \<le> unat (length' B) - unat ao" by simp
  finally have "unat ao + ?j \<le> unat (length' B)"
    using z(2) by (simp add: word_le_nat_alt)
  then have ne: "(word_of_nat (unat ao + ?j) :: guint) \<noteq> - 1"
    using l by (rule found_offset_not_minus_one)
  show ?thesis
  proof (cases "0 \<in> set ?window")
    case True
    then have "tvb_find_guint8 (Suc n) st p ao (- 1) 0 =
        Some (Return (word_of_nat (unat ao + ?j)) st)"
      using f by simp
    moreover have "(word_of_nat (unat ao + ?j) :: guint) - ao + 1 = word_of_nat (?j + 1)"
      by simp
    ultimately show ?thesis
      using h c ne True
      by (simp add: tvb_strsize_def monad_defs del: tvb_find_guint8.simps of_nat_add)
  next
    case False
    then have "tvb_find_guint8 (Suc n) st p ao (- 1) 0 = Some (Return (- 1) st)"
      using f by simp
    then show ?thesis
      using h c i False
      by (simp add: tvb_strsize_def monad_defs tvb_length_def tvb_reported_length_def
          del: tvb_find_guint8.simps)
  qed
qed

lemma strsize_out_of_range:
  assumes "heap st p = Some B" and "check_offset_length B offset 0 = Inl e"
  shows "tvb_strsize (Suc n) st p offset = Some (Throw e st)"
  using assms by (simp add: tvb_strsize_def monad_defs)

text \<open>
  C9, as the code has it. On an initialised buffer with a direct data pointer to its
  \<open>length\<close> captured bytes (\<open>length\<close> at most \<open>reported_length\<close> and at most \<open>2^31 - 1\<close>),
  at an offset the bounds check accepts: when a zero byte lies between the absolute
  offset and the end of the captured bytes, \<open>tvb_strsize\<close> returns the number of bytes
  from the absolute offset through the first zero byte; when none does, it throws
  \<open>BoundsError\<close> if \<open>length < reported_length\<close> and \<open>ReportedBoundsError\<close> otherwise. At an
  offset the bounds check rejects it throws the exception of that check.
\<close>

theorem strsize_in_range:
  assumes "heap st p = Some B" and "direct_tvb B d"
  shows "(\<forall>ao l0. check_offset_length B offset 0 = Inr (ao, l0) \<longrightarrow>
            tvb_strsize (Suc n) st p offset =
              (let window = take (unat (length' B) - unat ao) (drop (unat ao) d)
               in if 0 \<in> set window
                  then Some (Return
                         (word_of_nat (length (takeWhile (\<lambda>x. x \<noteq> 0) window) + 1)) st)
                  else Some (Throw (if length' B < reported_length B then BoundsError
                                    else ReportedBoundsError) st)))
       \<and> (\<forall>e. check_offset_length B offset 0 = Inl e \<longrightarrow>
            tvb_strsize (Suc n) st p offset = Some (Throw e st))"
proof (intro conjI allI impI)
  fix ao l0
  assume "check_offset_length B offset 0 = Inr (ao, l0)"
  then show "tvb_strsize (Suc n) st p offset =
      (let window = take (unat (length' B) - unat ao) (drop (unat ao) d)
       in if 0 \<in> set window
          then Some (Return (word_of_nat (length (takeWhile (\<lambda>x. x \<noteq> 0) window) + 1)) st)
          else Some (Throw (if length' B < reported_length B then BoundsError
                            else ReportedBoundsError) st))"
    by (rule strsize_direct [OF assms])
next
  fix e
  assume "check_offset_length B offset 0 = Inl e"
  then show "tvb_strsize (Suc n) st p offset = Some (Throw e st)"
    by (rule strsize_out_of_range [OF assms(1)])
qed

theorem strsize_in_range_witness:
  "heap (one_real [65, 66, 0, 67] 4 16) 0 = Some ((real_tvb [65, 66, 0, 67] 4 16)\<lparr>ds_tvb := Some 0\<rparr>)
   \<and> direct_tvb ((real_tvb [65, 66, 0, 67] 4 16)\<lparr>ds_tvb := Some 0\<rparr>) [65, 66, 0, 67]
   \<and> tvb_strsize 1 (one_real [65, 66, 0, 67] 4 16) 0 0 =
       Some (Return 3 (one_real [65, 66, 0, 67] 4 16))
   \<and> tvb_strsize 1 (one_real [65, 66, 0, 67] 4 16) 0 3 =
       Some (Throw BoundsError (one_real [65, 66, 0, 67] 4 16))
   \<and> tvb_strsize 1 (one_real [65, 66, 0, 67] 4 16) 0 5 =
       Some (Throw BoundsError (one_real [65, 66, 0, 67] 4 16))"
proof -
  let ?B = "(real_tvb [65, 66, 0, 67] 4 16)\<lparr>ds_tvb := Some 0\<rparr>"
  let ?st = "one_real [65, 66, 0, 67] 4 16"
  have h: "heap ?st 0 = Some ?B"
    by (simp add: one_real_def empty_state_def)
  have d: "direct_tvb ?B [65, 66, 0, 67]"
    by (simp add: direct_tvb_def real_tvb_def)
  have c0: "check_offset_length ?B 0 0 = Inr (0, 0)"
    by (simp add: check_offset_length_def check_offset_length_no_exception_def
        compute_offset_length_def compute_length_def real_tvb_def)
  have c3: "check_offset_length ?B 3 0 = Inr (3, 0)"
    by (simp add: check_offset_length_def check_offset_length_no_exception_def
        compute_offset_length_def compute_length_def real_tvb_def)
  have c5: "check_offset_length ?B 5 0 = Inl BoundsError"
    by (simp add: check_offset_length_def check_offset_length_no_exception_def
        compute_offset_length_def compute_length_def real_tvb_def)
  show ?thesis
    using h d c0 c3 c5
      strsize_in_range [OF h d, of 0 0] strsize_in_range [OF h d, of 3 0]
      strsize_in_range [OF h d, of 5 0]
    by (simp add: real_tvb_def)
qed

theorem strsize_counterexample:
  "initialized (real_tvb [65, 66, 67, 68] 4 16)
   \<and> heap (one_real [65, 66, 67, 68] 4 16) 0 =
       Some ((real_tvb [65, 66, 67, 68] 4 16)\<lparr>ds_tvb := Some 0\<rparr>)
   \<and> 0 \<notin> set [65, 66, 67, 68 :: guint8]
   \<and> length' (real_tvb [65, 66, 67, 68] 4 16) < reported_length (real_tvb [65, 66, 67, 68] 4 16)
   \<and> tvb_strsize 1 (one_real [65, 66, 67, 68] 4 16) 0 20 =
       Some (Throw ReportedBoundsError (one_real [65, 66, 67, 68] 4 16))"
  by (simp add: tvb_strsize_def monad_defs one_real_def empty_state_def real_tvb_def tvb_init_def
      check_offset_length_def check_offset_length_no_exception_def compute_offset_length_def)

section \<open>Subsets over a backing buffer with a direct data pointer\<close>

lemma check_success:
  assumes "check_offset_length_no_exception T offset len = Inr (ao, al)"
  shows "initialized T" and "compute_offset_length T offset len = Inr (ao, al)"
proof -
  show i: "initialized T"
    using assms by (auto simp: check_offset_length_no_exception_def split: if_splits)
  show "compute_offset_length T offset len = Inr (ao, al)"
    using assms i
    by (auto simp: check_offset_length_no_exception_def Let_def split: if_splits sum.splits)
qed

lemma check_success_end:
  assumes "check_offset_length_no_exception T offset len = Inr (ao, al)"
    and "length' T \<le> 0x7FFFFFFF"
  shows "unat ao + unat al \<le> unat (length' T)"
proof -
  note s = check_success [OF assms(1)]
  have "unat (if ao + al < ao then - 1 else ao + al) \<le> unat (length' T)"
    using assms(1) s
    by (auto simp: check_offset_length_no_exception_def Let_def word_le_nat_alt
        split: if_splits)
  then have "min (unat ao + unat al) (2 ^ 32 - 1) \<le> unat (length' T)"
    by (simp only: end_offset_clamp)
  moreover have "unat (length' T) \<le> unat (0x7FFFFFFF :: guint)"
    using assms(2) by (simp only: word_le_nat_alt)
  ultimately show "unat ao + unat al \<le> unat (length' T)"
    by (simp add: min_def split: if_splits)
qed

lemma compute_nonnegative_offset:
  assumes "0 \<le> sint offset" and "compute_offset_length T offset len = Inr (ao, al)"
  shows "ao = offset" and "offset \<le> length' T"
  using assms
  by (auto simp: compute_offset_length_def compute_length_def split: if_splits)

lemma get_ptr_direct:
  assumes "heap st p = Some T" and "real_data T = Some d"
    and "tvb_get_ptr m st p offset len = Some (Return q st1)"
  shows "\<exists>ao al. check_offset_length_no_exception T offset len = Inr (ao, al)
           \<and> q = drop (unat ao) d \<and> st1 = st"
proof (cases m)
  case 0
  then show ?thesis
    using assms by (simp add: tvb_get_ptr_def ensure_contiguous_def bind_def)
next
  case (Suc k)
  show ?thesis
  proof (cases "check_offset_length_no_exception T offset len")
    case (Inl e)
    then show ?thesis
      using assms Suc
      by (simp add: tvb_get_ptr_def ensure_contiguous_def monad_defs split: if_splits)
  next
    case (Inr r)
    obtain ao al where "r = (ao, al)" by (cases r)
    then show ?thesis
      using assms Suc Inr
      by (auto simp: tvb_get_ptr_def ensure_contiguous_def monad_defs)
  qed
qed


lemma set_subset_post:
  assumes "tvb_set_subset st1 p b bo bl rl = Some (Return () st2)"
  shows "\<exists>B0 B S off len.
           heap st1 b = Some B0 \<and> p \<noteq> b \<and> check_offset_length B0 bo bl = Inr (off, len)
         \<and> heap st2 b = Some B \<and> real_data B = real_data B0 \<and> length' B = length' B0
         \<and> ds_tvb B = ds_tvb B0
         \<and> heap st2 p = Some S \<and> subset_offset S = off \<and> length' S = len \<and> initialized S
         \<and> (\<forall>d. real_data B0 = Some d \<longrightarrow> real_data S = Some (drop (unat off) d))
         \<and> last_tvb_subset st2 = last_tvb_subset st1"
proof -
  obtain T where t: "heap st1 p = Some T"
    using assms by (auto simp: tvb_set_subset_def monad_defs split: option.splits)
  have ti: "\<not> initialized T"
    using assms t by (auto simp: tvb_set_subset_def monad_defs split: if_splits)
  obtain B0 where b: "heap st1 b = Some B0"
    using assms t by (auto simp: tvb_set_subset_def monad_defs split: if_splits option.splits)
  obtain off len where c: "check_offset_length B0 bo bl = Inr (off, len)"
    using assms t b
    by (cases "check_offset_length B0 bo bl")
       (auto simp: tvb_set_subset_def monad_defs split: if_splits)
  have bi: "initialized B0"
    using c by (auto simp: check_offset_length_def dest: check_success(1))
  have ne: "p \<noteq> b" using t b ti bi by auto
  show ?thesis
    using assms t b c ne
    by (cases "real_data B0")
       (auto simp: tvb_set_subset_def monad_defs add_to_used_in_list_def
          tvb_increment_usage_count_def split: if_splits)
qed


lemma bind_Return:
  assumes "bind m f = Some (Return v st')"
  obtains x s where "m = Some (Return x s)" and "f x s = Some (Return v st')"
  using assms by (auto simp: bind_def split: option.splits outcome.splits)

lemma new_subset_post:
  assumes "tvb_new_subset n st b bo bl rl = Some (Return s st')"
  shows "\<exists>B S. heap st' b = Some B \<and> heap st' s = Some S \<and> s \<noteq> b \<and> initialized S
           \<and> (\<forall>d. real_data B = Some d \<longrightarrow>
                  real_data S = Some (drop (unat (subset_offset S)) d))
           \<and> (length' B \<le> 0x7FFFFFFF \<longrightarrow>
                  unat (subset_offset S) + unat (length' S) \<le> unat (length' B))"
proof -
  obtain p sta where n: "tvb_new st TVBUFF_SUBSET = (p, sta)"
    by (cases "tvb_new st TVBUFF_SUBSET")
  from assms n have "bind (case last_tvb_subset sta of
                 None \<Rightarrow> Some (Return () sta)
               | Some l \<Rightarrow> tvb_free n sta l) (\<lambda>_ st.
         bind (tvb_set_subset (st\<lparr>last_tvb_subset := Some p\<rparr>) p b bo bl rl) (\<lambda>_ st.
         bind (deref st b) (\<lambda>b st.
         bind (deref st p) (\<lambda>t st.
           Some (Return p ((store st p (t\<lparr>ds_tvb := ds_tvb b\<rparr>))\<lparr>last_tvb_subset := None\<rparr>))))))
        = Some (Return s st')"
    by (simp add: tvb_new_subset_def)
  then obtain u stb where
    r: "bind (tvb_set_subset (stb\<lparr>last_tvb_subset := Some p\<rparr>) p b bo bl rl) (\<lambda>_ st.
         bind (deref st b) (\<lambda>b st.
         bind (deref st p) (\<lambda>t st.
           Some (Return p ((store st p (t\<lparr>ds_tvb := ds_tvb b\<rparr>))\<lparr>last_tvb_subset := None\<rparr>)))))
        = Some (Return s st')"
    by (rule bind_Return)
  then obtain v stc where
    ss: "tvb_set_subset (stb\<lparr>last_tvb_subset := Some p\<rparr>) p b bo bl rl = Some (Return v stc)"
    and f: "bind (deref stc b) (\<lambda>b st.
         bind (deref st p) (\<lambda>t st.
           Some (Return p ((store st p (t\<lparr>ds_tvb := ds_tvb b\<rparr>))\<lparr>last_tvb_subset := None\<rparr>))))
        = Some (Return s st')"
    by (rule bind_Return)
  from ss have "tvb_set_subset (stb\<lparr>last_tvb_subset := Some p\<rparr>) p b bo bl rl =
      Some (Return () stc)"
    by simp
  from set_subset_post [OF this] obtain B0 B S off len where
    p: "heap (stb\<lparr>last_tvb_subset := Some p\<rparr>) b = Some B0" "p \<noteq> b"
      "check_offset_length B0 bo bl = Inr (off, len)"
      "heap stc b = Some B" "real_data B = real_data B0" "length' B = length' B0"
      "heap stc p = Some S" "subset_offset S = off" "length' S = len" "initialized S"
      "\<forall>d. real_data B0 = Some d \<longrightarrow> real_data S = Some (drop (unat off) d)"
    by blast
  have e: "length' B \<le> 0x7FFFFFFF \<longrightarrow> unat off + unat len \<le> unat (length' B)"
    using p(3) p(6) check_success_end [of B0 bo bl off len]
    by (simp add: check_offset_length_def)
  have "s = p" and "st' = (store stc p (S\<lparr>ds_tvb := ds_tvb B\<rparr>))\<lparr>last_tvb_subset := None\<rparr>"
    using f p(4) p(7) by (auto simp: monad_defs)
  then show ?thesis
    using p e by (simp add: store_def)
qed

text \<open>
  C6, as the code has it. Let \<open>s\<close> be the subset \<open>tvb_new_subset\<close> returns over a backing
  buffer \<open>b\<close> that has a direct data pointer and at most \<open>2^31 - 1\<close> captured bytes. For
  every offset \<open>i\<close> and length \<open>len\<close> that are not negative, if \<open>tvb_get_ptr\<close> succeeds on
  \<open>s\<close> at \<open>i\<close> and on \<open>b\<close> at \<open>subset_offset + i\<close>, both return the same pointer, so
  the \<open>len\<close> bytes read are the same.
\<close>

theorem subset_read_agrees:
  assumes "tvb_new_subset n st b bo bl rl = Some (Return s st')"
    and "heap st' b = Some B" and "real_data B = Some d" and "length' B \<le> 0x7FFFFFFF"
    and "heap st' s = Some S"
    and "0 \<le> sint i" and "0 \<le> sint len"
    and "tvb_get_ptr m st' s i len = Some (Return p1 st1)"
    and "tvb_get_ptr m' st' b (subset_offset S + i) len = Some (Return p2 st2)"
  shows "p1 = p2 \<and> take (unat len) p1 = take (unat len) p2"
proof -
  let ?off = "subset_offset S"
  from new_subset_post [OF assms(1)] assms(2,3,4,5)
  have sd: "real_data S = Some (drop (unat ?off) d)"
    and fit: "unat ?off + unat (length' S) \<le> unat (length' B)"
    by auto
  from get_ptr_direct [OF assms(5) sd assms(8)] obtain ao al where
    cs: "check_offset_length_no_exception S i len = Inr (ao, al)"
    and p1: "p1 = drop (unat ao) (drop (unat ?off) d)"
    by blast
  from compute_nonnegative_offset [OF assms(6) check_success(2) [OF cs]]
  have ao: "ao = i" and il: "i \<le> length' S" by simp_all
  have "unat (length' B) \<le> unat (0x7FFFFFFF :: guint)"
    using assms(4) by (simp only: word_le_nat_alt)
  then have sum: "unat ?off + unat i < 2 ^ 31"
    using fit il by (simp add: word_le_nat_alt)
  then have u: "unat (?off + i) = unat ?off + unat i"
    by (simp add: unat_plus_if')
  then have "unat (?off + i) \<le> unat (0x7FFFFFFF :: guint)"
    using sum by simp
  then have "?off + i \<le> 0x7FFFFFFF"
    by (simp only: word_le_nat_alt)
  then have nn: "0 \<le> sint (?off + i)"
    by (simp add: sint_small)
  from get_ptr_direct [OF assms(2,3,9)] obtain bo' bl' where
    cb: "check_offset_length_no_exception B (?off + i) len = Inr (bo', bl')"
    and p2: "p2 = drop (unat bo') d"
    by blast
  from compute_nonnegative_offset(1) [OF nn check_success(2) [OF cb]]
  have "bo' = ?off + i" .
  then have "p1 = p2"
    using p1 p2 ao u by (simp add: add.commute)
  then show ?thesis by simp
qed

theorem subset_read_agrees_witness:
  "\<exists>st' S p1 p2 st1 st2.
      tvb_new_subset 0 (one_real [1, 2, 3, 4, 5] 5 5) 0 2 2 (- 1) = Some (Return 1 st')
    \<and> heap st' 1 = Some S
    \<and> tvb_get_ptr 1 st' 1 1 1 = Some (Return p1 st1)
    \<and> tvb_get_ptr 1 st' 0 (subset_offset S + 1) 1 = Some (Return p2 st2)
    \<and> take 1 p1 = [4] \<and> p1 = p2"
proof -
  have "\<exists>st' S B.
      tvb_new_subset 0 (one_real [1, 2, 3, 4, 5] 5 5) 0 2 2 (- 1) = Some (Return 1 st')
    \<and> heap st' 1 = Some S \<and> heap st' 0 = Some B \<and> real_data B = Some [1, 2, 3, 4, 5]
    \<and> length' B \<le> 0x7FFFFFFF \<and> subset_offset S = 2
    \<and> tvb_get_ptr 1 st' 1 1 1 = Some (Return [4, 5] st')
    \<and> tvb_get_ptr 1 st' 0 3 1 = Some (Return [4, 5] st')"
    by (simp add: tvb_new_subset_def tvb_new_def tvb_set_subset_def monad_defs tvb_init_def
        check_offset_length_def check_offset_length_no_exception_def compute_offset_length_def
        compute_length_def add_to_used_in_list_def tvb_increment_usage_count_def
        tvb_get_ptr_def ensure_contiguous_def one_real_def real_tvb_def empty_state_def)
  then obtain st' S B where
    a: "tvb_new_subset 0 (one_real [1, 2, 3, 4, 5] 5 5) 0 2 2 (- 1) = Some (Return 1 st')"
    and s: "heap st' 1 = Some S" and b: "heap st' 0 = Some B"
    and d: "real_data B = Some [1, 2, 3, 4, 5]" and l: "length' B \<le> 0x7FFFFFFF"
    and o: "subset_offset S = 2"
    and r1: "tvb_get_ptr 1 st' 1 1 1 = Some (Return [4, 5] st')"
    and r2: "tvb_get_ptr 1 st' 0 3 1 = Some (Return [4, 5] st')"
    by blast
  have r2': "tvb_get_ptr 1 st' 0 (subset_offset S + 1) 1 = Some (Return [4, 5] st')"
    using r2 o by simp
  have "[4, 5 :: guint8] = [4, 5] \<and> take (unat (1 :: gint)) [4, 5 :: guint8] = take (unat (1 :: gint)) [4, 5]"
    by (rule subset_read_agrees [OF a b d l s _ _ r1 r2']) simp_all
  then show ?thesis
    using a s r1 r2' by auto
qed

theorem subset_read_counterexample:
  "\<exists>st' S p1 p2 st1 st2.
      tvb_new_subset 0 (one_real [1, 2, 3, 4, 5] 5 5) 0 2 2 (- 1) = Some (Return 1 st')
    \<and> heap st' 1 = Some S
    \<and> tvb_get_ptr 1 st' 1 (- 1) 1 = Some (Return p1 st1)
    \<and> tvb_get_ptr 1 st' 0 (subset_offset S + (- 1)) 1 = Some (Return p2 st2)
    \<and> take 1 p1 = [4] \<and> take 1 p2 = [2]"
  by (simp add: tvb_new_subset_def tvb_new_def tvb_set_subset_def monad_defs tvb_init_def
      check_offset_length_def check_offset_length_no_exception_def compute_offset_length_def
      compute_length_def add_to_used_in_list_def tvb_increment_usage_count_def
      tvb_get_ptr_def ensure_contiguous_def one_real_def real_tvb_def empty_state_def)

section \<open>Composites\<close>

lemmas constructor_defs = tvb_new_real_data_def tvb_new_def tvb_init_def tvb_set_real_data_def
  tvb_new_composite_def tvb_composite_append_def add_to_used_in_list_def
  tvb_increment_usage_count_def tvb_composite_finalize_def empty_state_def

lemmas check_defs = check_offset_length_def check_offset_length_no_exception_def
  compute_offset_length_def compute_length_def

text \<open>
  C3 on the composite of \<open>A\<close> (3 bytes) and \<open>B\<close> (2 bytes). \<open>tvb_composite_finalize\<close>
  leaves the length 5 and the offset tables \<open>[0, 3]\<close> and \<open>[2, 4]\<close>, but it never writes
  \<open>reported_length\<close>, which keeps the 0 of \<open>tvb_init\<close>; so the byte at offset 0 of the
  composite is read, and the read of the byte at offset 3 throws \<open>ReportedBoundsError\<close>.
\<close>

theorem finalize_leaves_reported_length:
  "\<exists>st C. compose_AB 0 = Some (Return (2, 0, 1) st) \<and> heap st 2 = Some C
      \<and> initialized C \<and> length' C = 5 \<and> reported_length C = 0
      \<and> start_offsets C = Some [0, 3] \<and> end_offsets C = Some [2, 4]
      \<and> tvb_get_guint8 3 st 2 0 = Some (Return 1 st)
      \<and> tvb_get_guint8 3 st 2 3 = Some (Throw ReportedBoundsError st)"
  by (simp add: compose_AB_def constructor_defs monad_defs check_defs tvb_get_guint8_def
      fast_ensure_contiguous_def ensure_contiguous_def unset_def array_get_def octets_def
      numeral_3_eq_3)

section \<open>Releasing a composite and its members\<close>

text \<open>
  C10 on the composite \<open>C\<close> of \<open>A\<close> and \<open>B\<close>. \<open>tvb_composite_append\<close> registers each member
  in the used-in list of the composite and raises the usage count of the composite, so
  after the two appends \<open>C\<close> has usage count 3. \<open>tvb_free_chain\<close> on \<open>C\<close> gives back the
  headers of \<open>B\<close> and \<open>A\<close>, once each, and then only lowers the count of \<open>C\<close> to 2: the
  header of \<open>C\<close> is not given back.
\<close>

theorem free_chain_leaves_composite:
  "\<exists>st0 st C. compose_AB 0 = Some (Return (2, 0, 1) st0)
      \<and> map_option usage_count (heap st0 2) = Some 3
      \<and> map_option used_in (heap st0 2) = Some [1, 0]
      \<and> tvb_free_chain 5 st0 2 = Some (Return () st)
      \<and> chunk_freed st = [1, 0] \<and> heap st 0 = None \<and> heap st 1 = None
      \<and> heap st 2 = Some C \<and> usage_count C = 2"
proof -
  have fuel: "(5 :: nat) = Suc (Suc (Suc (Suc (Suc 0))))" by simp
  show ?thesis
    by (simp add: compose_AB_def constructor_defs monad_defs g_chunk_free_def fuel)
qed

section \<open>The gzip header walk\<close>

text \<open>
  C4 on the four bytes \<open>1f 8b 08 0c\<close>: the gzip magic, the deflate method, and a flags
  byte that declares an extra field and a file name, with nothing after it. The file-name
  loop is bounded by \<open>comprlen\<close>, but the two length bytes of the extra field are read at
  \<open>compr + 10\<close> and \<open>compr + 11\<close> without a test, past the end of the 4-byte allocation.
  With the file-name flag alone the walk of the same input reads nothing past the end
  and returns null.
\<close>

theorem gzip_extra_field_over_read:
  "rd [0x1f, 0x8b, 0x08, 0x0c] 10 = Inl UndefinedBehaviour
   \<and> gzip_header_skip [0x1f, 0x8b, 0x08, 0x0c] 4 = Inl UndefinedBehaviour
   \<and> gzip_header_skip [0x1f, 0x8b, 0x08, 0x08] 4 = Inr GZ_NULL"
  by (simp add: gzip_header_skip_def rd_def Z_DEFLATED_def skip_string.simps)

section \<open>What tvb_composite_finalize computes\<close>

lemma map_upt_shift: "map f [0..<Suc n] = f 0 # map (\<lambda>i. f (Suc i)) [0..<n]"
  by (simp add: map_upt_Suc del: upt_Suc)

lemma finalize_loop_result:
  assumes "map (heap st) ms = map Some ts"
  shows "finalize_loop st ms len starts ends =
     Inr (len + sum_list (map length' ts),
          starts @ map (\<lambda>i. len + sum_list (map length' (take i ts))) [0..<length ts],
          ends @ map (\<lambda>i. len + sum_list (map length' (take (Suc i) ts)) - 1) [0..<length ts])"
  using assms
proof (induction ms arbitrary: ts len starts ends)
  case Nil
  then show ?case by simp
next
  case (Cons m ms)
  then obtain t ts' where ts: "ts = t # ts'" and m: "heap st m = Some t"
    and r: "map (heap st) ms = map Some ts'"
    by (cases ts) auto
  show ?case
    unfolding ts
    by (simp add: m Cons.IH [OF r] map_upt_shift add.assoc del: upt_Suc)
qed

text \<open>
  On a composite that is not yet finalised and whose members \<open>ts\<close> are all allocated,
  \<open>tvb_composite_finalize\<close> returns, sets \<open>length\<close> to the sum of the members' lengths
  (in 32-bit arithmetic), fills \<open>start_offsets[i]\<close> with the sum of the lengths of the
  members before \<open>i\<close> and \<open>end_offsets[i]\<close> with \<open>start_offsets[i] + length - 1\<close> of member
  \<open>i\<close>, and leaves \<open>reported_length\<close> as it was.
\<close>

theorem finalize_offsets:
  assumes "heap st p = Some T" and "tvb_type T = TVBUFF_COMPOSITE" and "\<not> initialized T"
    and "length' T = 0" and "map (heap st) (composite_tvbs T) = map Some ts"
  shows "\<exists>st' C. tvb_composite_finalize st p = Some (Return () st') \<and> heap st' p = Some C
      \<and> initialized C \<and> length' C = sum_list (map length' ts)
      \<and> reported_length C = reported_length T
      \<and> (\<forall>i < length ts.
            array_get (start_offsets C) i = Inr (sum_list (map length' (take i ts)))
          \<and> array_get (end_offsets C) i =
              Inr (sum_list (map length' (take i ts)) + length' (ts ! i) - 1))"
  using assms finalize_loop_result [OF assms(5), of 0 "[]" "[]"]
  by (simp add: tvb_composite_finalize_def monad_defs array_get_def take_Suc_conv_app_nth)

theorem finalize_offsets_witness:
  "\<exists>st0 T st' C. compose_AB 0 = Some (Return (2, 0, 1) st')
      \<and> tvb_composite_finalize st0 2 = Some (Return () st')
      \<and> heap st0 2 = Some T \<and> \<not> initialized T \<and> reported_length T = 0
      \<and> heap st' 2 = Some C \<and> length' C = 5 \<and> reported_length C = 0
      \<and> array_get (start_offsets C) 1 = Inr 3 \<and> array_get (end_offsets C) 1 = Inr 4"
proof -
  have "\<exists>st0 T A B.
        bind (tvb_new_real_data 0 empty_state (Some [1, 2, 3]) 3 3) (\<lambda>a st.
        bind (tvb_new_real_data 0 st (Some [4, 5]) 2 2) (\<lambda>b st.
        bind (tvb_new_composite st) (\<lambda>c st.
        bind (tvb_composite_append st c a) (\<lambda>_ st.
        bind (tvb_composite_append st c b) (\<lambda>_ st. Some (Return (c, a, b) st))))))
          = Some (Return (2, 0, 1) st0)
      \<and> heap st0 2 = Some T \<and> tvb_type T = TVBUFF_COMPOSITE \<and> \<not> initialized T
      \<and> length' T = 0 \<and> reported_length T = 0 \<and> composite_tvbs T = [0, 1]
      \<and> heap st0 0 = Some A \<and> heap st0 1 = Some B \<and> length' A = 3 \<and> length' B = 2"
    by (simp add: constructor_defs monad_defs)
  then obtain st0 T A B where
    c: "bind (tvb_new_real_data 0 empty_state (Some [1, 2, 3]) 3 3) (\<lambda>a st.
        bind (tvb_new_real_data 0 st (Some [4, 5]) 2 2) (\<lambda>b st.
        bind (tvb_new_composite st) (\<lambda>c st.
        bind (tvb_composite_append st c a) (\<lambda>_ st.
        bind (tvb_composite_append st c b) (\<lambda>_ st. Some (Return (c, a, b) st))))))
          = Some (Return (2, 0, 1) st0)"
    and t: "heap st0 2 = Some T" "tvb_type T = TVBUFF_COMPOSITE" "\<not> initialized T"
      "length' T = 0"
    and r: "reported_length T = 0" and ms: "composite_tvbs T = [0, 1]"
    and ab: "heap st0 0 = Some A" "heap st0 1 = Some B" "length' A = 3" "length' B = 2"
    by blast
  have m: "map (heap st0) (composite_tvbs T) = map Some [A, B]"
    using ms ab by simp
  from finalize_offsets [OF t m] obtain st' C where
    f: "tvb_composite_finalize st0 2 = Some (Return () st')" "heap st' 2 = Some C"
      "length' C = sum_list (map length' [A, B])" "reported_length C = reported_length T"
      "\<forall>i < length [A, B].
            array_get (start_offsets C) i = Inr (sum_list (map length' (take i [A, B])))
          \<and> array_get (end_offsets C) i =
              Inr (sum_list (map length' (take i [A, B])) + length' ([A, B] ! i) - 1)"
    by blast
  have "compose_AB 0 = Some (Return (2, 0, 1) st')"
    using c f(1) by (auto simp: compose_AB_def bind_def split: option.splits outcome.splits)
  moreover have "array_get (start_offsets C) 1 = Inr 3 \<and> array_get (end_offsets C) 1 = Inr 4"
    using f(5) [rule_format, of 1] ab by simp
  ultimately show ?thesis
    using t r f ab by auto
qed

section \<open>The gzip header walk without an extra field\<close>

lemma skip_string_unterminated:
  assumes "\<forall>i < length compr. c \<le> i \<longrightarrow> compr ! i \<noteq> 0"
  shows "skip_string compr (int (length compr)) c = Inr (max c (length compr))"
  using assms
proof (induction "length compr - c" arbitrary: c)
  case 0
  then have "length compr \<le> c" by simp
  then show ?case by (subst skip_string.simps) (simp add: max_def)
next
  case (Suc k)
  then have lt: "c < length compr" by simp
  then have nz: "compr ! c \<noteq> 0" using Suc.prems by simp
  have "skip_string compr (int (length compr)) (Suc c) = Inr (max (Suc c) (length compr))"
    using Suc.hyps(1) [of "Suc c"] Suc.hyps(2) Suc.prems by simp
  then show ?case
    using lt nz by (subst skip_string.simps) (simp add: rd_def max_def)
qed

text \<open>
  When the flags byte declares no extra field but a file name or a comment, and no zero
  byte follows the ten header bytes, the walk over an allocation of \<open>comprlen\<close> bytes
  reads no byte outside it and returns null.
\<close>

theorem gzip_unterminated_name_returns_null:
  assumes "4 \<le> length compr" and "compr ! 3 AND 4 = 0"
    and "compr ! 3 AND 8 \<noteq> 0 \<or> compr ! 3 AND 16 \<noteq> 0"
    and "\<forall>i < length compr. 10 \<le> i \<longrightarrow> compr ! i \<noteq> 0"
  shows "gzip_header_skip compr (int (length compr)) = Inr GZ_NULL"
proof -
  have s10: "skip_string compr (int (length compr)) 10 = Inr (max 10 (length compr))"
    using assms(4) by (rule skip_string_unterminated)
  have "\<forall>i < length compr. Suc (max 10 (length compr)) \<le> i \<longrightarrow> compr ! i \<noteq> 0"
    by auto
  then have past: "skip_string compr (int (length compr)) (Suc (max 10 (length compr))) =
      Inr (Suc (max 10 (length compr)))"
    using skip_string_unterminated [of compr "Suc (max 10 (length compr))"] by simp
  show ?thesis
    using assms(1,2,3) s10 past
    by (auto simp: gzip_header_skip_def rd_def)
qed

theorem gzip_unterminated_name_returns_null_witness:
  "gzip_header_skip [0x1f, 0x8b, 8, 8, 0, 0, 0, 0, 0, 3, 97, 98, 99] 13 = Inr GZ_NULL"
  using gzip_unterminated_name_returns_null [of "[0x1f, 0x8b, 8, 8, 0, 0, 0, 0, 0, 3, 97, 98, 99]"]
  by (simp add: nth_Cons' less_Suc_eq)

section \<open>A subset with no direct data pointer\<close>

text \<open>
  Over the composite of \<open>A\<close> and \<open>B\<close> (bytes 1 to 5, not flattened), \<open>s1\<close> is the subset of
  all five bytes with reported length 100 and \<open>s2\<close> the subset of \<open>s1\<close> at offset 1 of
  length 2, the window of the bytes 2 and 3. Neither has a direct data pointer, and
  \<open>ensure_contiguous_no_exception\<close> resolves a read of \<open>s2\<close> in its backing buffer at
  \<open>abs_offset - subset.offset\<close>: the byte read at offset 1 of \<open>s2\<close> is the byte 1 at
  offset 0 of the composite.
\<close>

theorem subset_recursion_offset:
  "\<exists>st0 st1 st2 S.
      compose_AB 0 = Some (Return (2, 0, 1) st0)
    \<and> tvb_new_subset 0 st0 2 0 5 100 = Some (Return 3 st1)
    \<and> tvb_new_subset 0 st1 3 1 2 (- 1) = Some (Return 4 st2)
    \<and> heap st2 4 = Some S \<and> real_data S = None \<and> subset_offset S = 1 \<and> length' S = 2
    \<and> tvb_get_guint8 5 st2 4 1 = Some (Return 1 st2)"
proof -
  have fuel: "(5 :: nat) = Suc (Suc (Suc (Suc (Suc 0))))" by simp
  show ?thesis
    by (simp add: compose_AB_def constructor_defs monad_defs check_defs tvb_new_subset_def
        tvb_set_subset_def tvb_get_guint8_def fast_ensure_contiguous_def
        ensure_contiguous_def unset_def array_get_def octets_def fuel)
qed

end
